theory Spec2Isabelle
  imports Complex_Main "HOL-Library.AList"
begin

section \<open>Repository records and the table columns\<close>

text \<open>
  The dashboard page keeps a list of repositories fetched from the hosting API and
  several independent annotation objects. The TypeScript type of one repository:
  \<^verbatim>\<open>
  type Repo = { name: string; html_url: string; description: string | null;
    language: string | null; fork: boolean; private: boolean; stargazers_count: number;
    created_at: string; size: number; owner: { login: string }; commits?: number };
  \<close>
  \<open>private\<close> and \<open>size\<close> are renamed (\<open>is_private\<close>, \<open>size_kb\<close>): the first is a
  keyword of the theory language, the second a constant of HOL. A nullable or optional
  field is an \<open>option\<close>.
\<close>

record Owner =
  login :: string

record Repo =
  name :: string
  html_url :: string
  description :: "string option"
  language :: "string option"
  fork :: bool
  is_private :: bool
  stargazers_count :: nat
  created_at :: string
  size_kb :: nat
  owner :: Owner
  commits :: "nat option"

text \<open>\<^verbatim>\<open>function repoKey(r) { return `${r.owner.login}/${r.name}`; }\<close>\<close>

definition repoKey :: "Repo \<Rightarrow> string" where
  "repoKey r = login (owner r) @ ''/'' @ name r"

text \<open>\<^verbatim>\<open>function getType(r) { return r.fork ? 'Fork' : r.private ? 'Private' : 'Public'; }\<close>\<close>

definition getType :: "Repo \<Rightarrow> string" where
  "getType r = (if fork r then ''Fork'' else if is_private r then ''Private'' else ''Public'')"

text \<open>
  The filter function of the \<open>type\<close> column:
  \<^verbatim>\<open>
  filterFn: (row, columnId, filterValue) => {
    const type = getType(row.original);
    if (filterValue === 'Sources') { return type === 'Public' || type === 'Private'; }
    return type === filterValue;
  }
  \<close>
\<close>

definition type_filterFn :: "Repo \<Rightarrow> string \<Rightarrow> bool" where
  "type_filterFn row filterValue =
     (let type = getType row in
      if filterValue = ''Sources'' then type = ''Public'' \<or> type = ''Private''
      else type = filterValue)"

text \<open>
  The table library keeps the rows on which the filter function of a filtered column
  answers true, in their order.
\<close>

definition filteredRows :: "(Repo \<Rightarrow> string \<Rightarrow> bool) \<Rightarrow> string \<Rightarrow> Repo list \<Rightarrow> Repo list" where
  "filteredRows filterFn filterValue rows = filter (\<lambda>row. filterFn row filterValue) rows"

text \<open>
  An annotation object that is only read by key (\<open>Record<string, string>\<close>) is a map. The
  \<open>class\<close> column:
  \<^verbatim>\<open>
  accessorFn: (row) => repoClasses[repoKey(row)] ?? '',
  filterFn: (row, columnId, filterValue) => {
    const cls = repoClasses[repoKey(row.original)] ?? '';
    if (filterValue === '(none)') return cls === '';
    return cls === filterValue;
  }
  \<close>
\<close>

definition class_accessorFn :: "(string \<rightharpoonup> string) \<Rightarrow> Repo \<Rightarrow> string" where
  "class_accessorFn repoClasses row =
     (case repoClasses (repoKey row) of None \<Rightarrow> '''' | Some c \<Rightarrow> c)"

definition class_filterFn :: "(string \<rightharpoonup> string) \<Rightarrow> Repo \<Rightarrow> string \<Rightarrow> bool" where
  "class_filterFn repoClasses row filterValue =
     (let cls = (case repoClasses (repoKey row) of None \<Rightarrow> '''' | Some c \<Rightarrow> c) in
      if filterValue = ''(none)'' then cls = '''' else cls = filterValue)"

text \<open>
  JavaScript's \<open>a || b\<close> on strings that may be missing: \<open>a\<close> when it is a non-empty
  string, otherwise \<open>b\<close>. The \<open>description\<close> column:
  \<^verbatim>\<open>accessorFn: (row) => repoDescriptions[repoKey(row)] || row.description || ''\<close>
\<close>

definition or_else :: "string option \<Rightarrow> string \<Rightarrow> string" where
  "or_else a b = (case a of None \<Rightarrow> b | Some s \<Rightarrow> if s = '''' then b else s)"

definition description_accessorFn :: "(string \<rightharpoonup> string) \<Rightarrow> Repo \<Rightarrow> string" where
  "description_accessorFn repoDescriptions row =
     or_else (repoDescriptions (repoKey row)) (or_else (description row) '''')"

subsection \<open>Plain objects and the members they inherit\<close>

text \<open>
  The page uses plain objects as dictionaries and reads them with \<open>obj[key]\<close>. Such a
  read finds the object's own entry, and otherwise a member of \<open>Object.prototype\<close> when
  \<open>key\<close> is the name of one: a function for eleven of the names, the prototype object
  itself for \<open>__proto__\<close>. Only a key that is neither reads as \<open>undefined\<close>. An inherited
  member is neither \<open>undefined\<close> nor \<open>null\<close>, it is truthy, and it is not iterable.
\<close>

definition object_prototype_names :: "string list" where
  "object_prototype_names =
     [''constructor'', ''hasOwnProperty'', ''isPrototypeOf'', ''propertyIsEnumerable'',
      ''toLocaleString'', ''toString'', ''valueOf'', ''__proto__'', ''__defineGetter__'',
      ''__defineSetter__'', ''__lookupGetter__'', ''__lookupSetter__'']"

datatype 'a read = Own 'a | Inherited | Absent

definition object_read :: "(string \<rightharpoonup> 'a) \<Rightarrow> string \<Rightarrow> 'a read" where
  "object_read obj key =
     (case obj key of
        Some v \<Rightarrow> Own v
      | None \<Rightarrow> if key \<in> set object_prototype_names then Inherited else Absent)"

text \<open>
  A computation returns a value, is left by an exception, or leaves what is modelled
  here.
\<close>

datatype 'a outcome = Returns 'a | Throws | NotModelled

subsection \<open>The URL column\<close>

text \<open>
  Two annotation objects carry URLs: \<open>tofuUrls : Record<string, string>\<close>, pasted from the
  infrastructure tool's output, and \<open>customUrls : Record<string, string[]>\<close>, entered in the
  table. Both are iterated with \<open>Object.entries\<close>, so each is the list of its entries in
  that order; the keys of an object are distinct. The derived object:
  \<^verbatim>\<open>
  const combinedUrls = $derived.by(() => {
    const result: Record<string, string[]> = {};
    for (const [key, url] of Object.entries(tofuUrls)) {
      if (url) result[key] = [url];
    }
    for (const [key, urls] of Object.entries(customUrls)) {
      result[key] = [...(result[key] || []), ...urls];
    }
    return result;
  });
  \<close>
  \<open>result\<close> is a plain object, modelled by the map of its own entries.

  The first loop: an assignment \<open>result[key] = [url]\<close> makes an own entry, also under the
  name of an inherited function. Under the key \<open>__proto__\<close> it calls the inherited setter
  instead, which replaces the prototype of \<open>result\<close> by the array; what later reads find
  there is not modelled.
\<close>

fun tofu_loop ::
  "(string \<times> string) list \<Rightarrow> (string \<rightharpoonup> string list) \<Rightarrow> (string \<rightharpoonup> string list) outcome" where
  "tofu_loop [] result = Returns result"
| "tofu_loop ((key, url) # rest) result =
     (if url \<noteq> '''' then
        (if key = ''__proto__'' then NotModelled else tofu_loop rest (result(key \<mapsto> [url])))
      else tofu_loop rest result)"

text \<open>
  The second loop: \<open>result[key] || []\<close> is the own array when there is one and the empty
  array when the key reads as \<open>undefined\<close>. When the key names an inherited member and
  \<open>result\<close> has no own entry for it, the read gives that member, which is truthy, and the
  spread of it throws a \<open>TypeError\<close>.
\<close>

fun custom_loop ::
  "(string \<times> string list) list \<Rightarrow> (string \<rightharpoonup> string list) \<Rightarrow> (string \<rightharpoonup> string list) outcome" where
  "custom_loop [] result = Returns result"
| "custom_loop ((key, urls) # rest) result =
     (case object_read result key of
        Own old \<Rightarrow> custom_loop rest (result(key \<mapsto> old @ urls))
      | Inherited \<Rightarrow> Throws
      | Absent \<Rightarrow> custom_loop rest (result(key \<mapsto> [] @ urls)))"

definition combinedUrls ::
  "(string \<times> string) list \<Rightarrow> (string \<times> string list) list \<Rightarrow> (string \<rightharpoonup> string list) outcome" where
  "combinedUrls tofuUrls customUrls =
     (case tofu_loop tofuUrls Map.empty of
        Returns result \<Rightarrow> custom_loop customUrls result
      | Throws \<Rightarrow> Throws
      | NotModelled \<Rightarrow> NotModelled)"

text \<open>
  The cell of the URL column and the export of the enabled projects both read
  \<^verbatim>\<open>combinedUrls[row.name] ?? []\<close> on the object the derivation returned: the own
  list, the empty list when the name reads as \<open>undefined\<close>, and the inherited member when
  the repository is named like one (the member is not nullish, so \<open>??\<close> keeps it).
\<close>

datatype url_cell = Urls "string list" | Member

definition pages_url_urls :: "(string \<rightharpoonup> string list) \<Rightarrow> Repo \<Rightarrow> url_cell" where
  "pages_url_urls combined row =
     (case object_read combined (name row) of
        Own urls \<Rightarrow> Urls urls
      | Inherited \<Rightarrow> Member
      | Absent \<Rightarrow> Urls [])"

fun join :: "string \<Rightarrow> string list \<Rightarrow> string" where
  "join sep [] = ''''"
| "join sep [x] = x"
| "join sep (x # y # ys) = x @ sep @ join sep (y # ys)"

text \<open>
  The column's accessor, \<^verbatim>\<open>(combinedUrls[row.name] ?? []).join(', ')\<close>: an inherited
  member has no \<open>join\<close>, and the call throws a \<open>TypeError\<close> (\<open>None\<close>).
\<close>

definition pages_url_accessorFn :: "(string \<rightharpoonup> string list) \<Rightarrow> Repo \<Rightarrow> string option" where
  "pages_url_accessorFn combined row =
     (case pages_url_urls combined row of
        Urls urls \<Rightarrow> Some (join '', '' urls)
      | Member \<Rightarrow> None)"

text \<open>
  Reading the derived object runs the derivation; when the derivation throws, every read
  of \<open>combinedUrls\<close> throws. What a row of the table finds for its URLs:
\<close>

definition row_urls ::
  "(string \<times> string) list \<Rightarrow> (string \<times> string list) list \<Rightarrow> Repo \<Rightarrow> url_cell outcome" where
  "row_urls tofuUrls customUrls row =
     (case combinedUrls tofuUrls customUrls of
        Returns combined \<Rightarrow> Returns (pages_url_urls combined row)
      | Throws \<Rightarrow> Throws
      | NotModelled \<Rightarrow> NotModelled)"

text \<open>
  The rows of "Export Enabled Project Data", before they are written to the clipboard:
  \<^verbatim>\<open>
  const enabledRepos = repos.filter((r) => repoEnabled[repoKey(r)]);
  const data = enabledRepos.map((repo) => {
    const key = repoKey(repo);
    return {
      Enabled: true, Owner: repo.owner.login, Name: repo.name,
      URLs: combinedUrls[repo.name] ?? [], Language: repo.language ?? '',
      Type: getType(repo), Stars: repo.stargazers_count, Commits: repo.commits ?? '',
      Created: repo.created_at, Size: repo.size, Class: repoClasses[key] ?? '',
      Description: repoDescriptions[key] || repo.description || ''
    };
  });
  \<close>
  The fields carry the prefix \<open>row_\<close>; \<open>row_Commits = None\<close> stands for the empty string
  written when there is no commit count. \<open>combined\<close> is the object the derivation of
  \<open>combinedUrls\<close> returned (when the derivation throws, so does the export). The other
  objects are read with the key \<open>repoKey\<close>, which contains a slash and so is never the name
  of an inherited member: they are maps.
\<close>

record project_row =
  row_Enabled :: bool
  row_Owner :: string
  row_Name :: string
  row_URLs :: url_cell
  row_Language :: string
  row_Type :: string
  row_Stars :: nat
  row_Commits :: "nat option"
  row_Created :: string
  row_Size :: nat
  row_Class :: string
  row_Description :: string

definition exportEnabledProjectData ::
  "(string \<rightharpoonup> bool) \<Rightarrow> (string \<rightharpoonup> string) \<Rightarrow> (string \<rightharpoonup> string)
     \<Rightarrow> (string \<rightharpoonup> string list) \<Rightarrow> Repo list \<Rightarrow> project_row list" where
  "exportEnabledProjectData repoEnabled repoClasses repoDescriptions combined repos =
     (let enabledRepos = filter (\<lambda>r. repoEnabled (repoKey r) = Some True) repos
      in map (\<lambda>repo.
                let key = repoKey repo
                in \<lparr>row_Enabled = True, row_Owner = login (owner repo), row_Name = name repo,
                    row_URLs = pages_url_urls combined repo,
                    row_Language = (case language repo of None \<Rightarrow> '''' | Some l \<Rightarrow> l),
                    row_Type = getType repo, row_Stars = stargazers_count repo,
                    row_Commits = commits repo, row_Created = created_at repo,
                    row_Size = size_kb repo,
                    row_Class = (case repoClasses key of None \<Rightarrow> '''' | Some c \<Rightarrow> c),
                    row_Description =
                      or_else (repoDescriptions key) (or_else (description repo) '''')\<rparr>)
           enabledRepos)"

text \<open>
  The merge rule in the words of the specification, for comparison with the code: the
  infrastructure URL stored under the repository's bare name, when present and
  non-empty, followed by the custom URLs stored under the owner-qualified key, empty
  entries filtered out.
\<close>

definition spec_resolvedUrls ::
  "(string \<times> string) list \<Rightarrow> (string \<times> string list) list \<Rightarrow> Repo \<Rightarrow> string list" where
  "spec_resolvedUrls infraUrls annotationUrls r =
     (case map_of infraUrls (name r) of
        None \<Rightarrow> [] | Some url \<Rightarrow> if url \<noteq> '''' then [url] else []) @
     filter (\<lambda>url. url \<noteq> '''')
       (case map_of annotationUrls (repoKey r) of None \<Rightarrow> [] | Some urls \<Rightarrow> urls)"

section \<open>JSON values and the page state\<close>

text \<open>
  The import functions assign whatever \<open>JSON.parse\<close> returns to the annotation
  variables: the TypeScript types are erased when the page runs. So the values are JSON
  values. A number is an IEEE double in the program; the code only tests numbers for
  truthiness, which \<open>x \<noteq> 0\<close> models (\<open>NaN\<close> is not a JSON number). An object is the list
  of its entries in \<open>Object.entries\<close> order.
\<close>

datatype json =
    JNull
  | JBool bool
  | JNum real
  | JStr string
  | JArr "json list"
  | JObj "(string \<times> json) list"

text \<open>What \<open>if (v)\<close> tests.\<close>

fun truthy :: "json \<Rightarrow> bool" where
  "truthy JNull = False"
| "truthy (JBool b) = b"
| "truthy (JNum x) = (x \<noteq> 0)"
| "truthy (JStr s) = (s \<noteq> '''')"
| "truthy (JArr xs) = True"
| "truthy (JObj kvs) = True"

text \<open>
  \<open>v.k\<close> for a value \<open>v\<close> other than \<open>null\<close> and a name \<open>k\<close> that no prototype defines
  (the code reads \<open>classes\<close>, \<open>repoClasses\<close>, \<open>customUrls\<close>, \<open>repoUrls\<close>, \<open>repoEnabled\<close>,
  \<open>repoDescriptions\<close>, \<open>pages_urls\<close> and \<open>value\<close>): the entry of an object, \<open>undefined\<close>
  (\<open>None\<close>) otherwise. On \<open>null\<close> the read throws; the callers test for \<open>JNull\<close> first.
\<close>

fun member :: "json \<Rightarrow> string \<Rightarrow> json option" where
  "member (JObj kvs) k = map_of kvs k"
| "member v k = None"

text \<open>\<open>if (x) stmt\<close>, where \<open>x\<close> may be \<open>undefined\<close> and \<open>stmt\<close> uses the value of \<open>x\<close>.\<close>

definition when_truthy :: "json option \<Rightarrow> (json \<Rightarrow> 's \<Rightarrow> 's) \<Rightarrow> 's \<Rightarrow> 's" where
  "when_truthy x stmt s = (case x of None \<Rightarrow> s | Some v \<Rightarrow> if truthy v then stmt v s else s)"

text \<open>
  \<open>localStorage\<close> maps a key to a string. What the page stores is either a string it
  holds (token, user name) or \<open>JSON.stringify\<close> of a value; the store of the model keeps
  the value that was serialised.
\<close>

datatype stored = StoredString string | StoredRepos "Repo list" | StoredJson json

text \<open>
  The variables of the page. \<open>repos\<close> is \<open>None\<close> when the variable holds \<open>undefined\<close>
  (the page can assign a missing member of a response to it). Two versions of the page
  are in the repository. Both have the variables of \<open>page_vars\<close>. The version that documents three data sources has the
  infrastructure layer \<open>tofuUrls\<close> and the custom layer \<open>customUrls\<close> (\<open>page\<close>); the
  version in \<open>routes/+page.svelte\<close> has the single layer \<open>repoUrls\<close> (\<open>route_page\<close>).
\<close>

record page_vars =
  token :: string
  username :: string
  repos :: "Repo list option"
  loading :: bool
  error :: string
  classes :: json
  repoClasses :: json
  repoEnabled :: json
  repoDescriptions :: json
  localStorage :: "string \<rightharpoonup> stored"

record page = page_vars +
  tofuUrls :: json
  customUrls :: json

record route_page = page_vars +
  repoUrls :: json

subsection \<open>Export and import of the custom data (version with three data sources)\<close>

text \<open>The object \<open>{ classes, repoClasses, customUrls, repoEnabled, repoDescriptions }\<close>.\<close>

definition custom_bundle :: "page \<Rightarrow> json" where
  "custom_bundle s =
     JObj [(''classes'', classes s), (''repoClasses'', repoClasses s),
           (''customUrls'', customUrls s), (''repoEnabled'', repoEnabled s),
           (''repoDescriptions'', repoDescriptions s)]"

text \<open>
  \<^verbatim>\<open>
  function persistCustom() {
    localStorage.setItem('repomgr_custom',
      JSON.stringify({ classes, repoClasses, customUrls, repoEnabled, repoDescriptions }));
  }
  function persistTofuUrls() {
    localStorage.setItem('repomgr_tofu_urls', JSON.stringify(tofuUrls));
  }
  \<close>
\<close>

definition persistCustom :: "page \<Rightarrow> page" where
  "persistCustom s =
     s\<lparr>localStorage := (localStorage s)(''repomgr_custom'' \<mapsto> StoredJson (custom_bundle s))\<rparr>"

definition persistTofuUrls :: "page \<Rightarrow> page" where
  "persistTofuUrls s =
     s\<lparr>localStorage := (localStorage s)(''repomgr_tofu_urls'' \<mapsto> StoredJson (tofuUrls s))\<rparr>"

text \<open>
  \<^verbatim>\<open>
  function exportCustomData() {
    return JSON.stringify(
      { classes, repoClasses, customUrls, repoEnabled, repoDescriptions }, null, 2);
  }
  \<close>
  \<open>JSON.stringify(\<cdot>, null, 2)\<close> and \<open>JSON.parse\<close> belong to the platform; they are the
  parameters \<open>stringify\<close> and \<open>parse\<close>. \<open>parse\<close> answers \<open>None\<close> where \<open>JSON.parse\<close> throws.
\<close>

definition exportCustomData :: "(json \<Rightarrow> string) \<Rightarrow> page \<Rightarrow> string" where
  "exportCustomData stringify s = stringify (custom_bundle s)"

text \<open>
  \<^verbatim>\<open>
  function importCustomData(data: string) {
    try {
      const parsed = JSON.parse(data);
      if (parsed.classes) classes = parsed.classes;
      if (parsed.repoClasses) repoClasses = parsed.repoClasses;
      if (parsed.customUrls) customUrls = parsed.customUrls;
      if (parsed.repoEnabled) repoEnabled = parsed.repoEnabled;
      if (parsed.repoDescriptions) repoDescriptions = parsed.repoDescriptions;
      persistCustom();
    } catch {}
  }
  \<close>
  The \<open>try\<close> block is left by an exception when \<open>JSON.parse\<close> throws and when \<open>parsed\<close> is
  \<open>null\<close> (the first property read throws); nothing has been assigned by then.
\<close>

definition importCustomData :: "(string \<Rightarrow> json option) \<Rightarrow> string \<Rightarrow> page \<Rightarrow> page" where
  "importCustomData parse data s =
     (case parse data of
        None \<Rightarrow> s
      | Some JNull \<Rightarrow> s
      | Some parsed \<Rightarrow>
          (let s = when_truthy (member parsed ''classes'') (\<lambda>v s. s\<lparr>classes := v\<rparr>) s;
               s = when_truthy (member parsed ''repoClasses'') (\<lambda>v s. s\<lparr>repoClasses := v\<rparr>) s;
               s = when_truthy (member parsed ''customUrls'') (\<lambda>v s. s\<lparr>customUrls := v\<rparr>) s;
               s = when_truthy (member parsed ''repoEnabled'') (\<lambda>v s. s\<lparr>repoEnabled := v\<rparr>) s;
               s = when_truthy (member parsed ''repoDescriptions'')
                     (\<lambda>v s. s\<lparr>repoDescriptions := v\<rparr>) s
           in persistCustom s))"

text \<open>
  \<open>x?.value\<close>: \<open>undefined\<close> when \<open>x\<close> is \<open>undefined\<close> or \<open>null\<close>, the member otherwise.
\<close>

definition optional_member :: "json option \<Rightarrow> string \<Rightarrow> json option" where
  "optional_member x k = (case x of None \<Rightarrow> None | Some JNull \<Rightarrow> None | Some v \<Rightarrow> member v k)"

text \<open>
  \<^verbatim>\<open>
  function importTofuOutput(data: string) {
    try {
      const parsed = JSON.parse(data);
      if (parsed.pages_urls?.value) {
        tofuUrls = parsed.pages_urls.value;
        persistTofuUrls();
      }
    } catch {}
  }
  \<close>
\<close>

definition importTofuOutput :: "(string \<Rightarrow> json option) \<Rightarrow> string \<Rightarrow> page \<Rightarrow> page" where
  "importTofuOutput parse data s =
     (case parse data of
        None \<Rightarrow> s
      | Some JNull \<Rightarrow> s
      | Some parsed \<Rightarrow>
          when_truthy (optional_member (member parsed ''pages_urls'') ''value'')
            (\<lambda>v s. persistTofuUrls (s\<lparr>tofuUrls := v\<rparr>)) s)"

text \<open>
  The types the page declares for the five annotation variables:
  \<^verbatim>\<open>
  let classes = $state<string[]>([]);
  let repoClasses = $state<Record<string, string>>({});
  let customUrls = $state<Record<string, string[]>>({});
  let repoEnabled = $state<Record<string, boolean>>({});
  let repoDescriptions = $state<Record<string, string>>({});
  \<close>
\<close>

fun is_string :: "json \<Rightarrow> bool" where
  "is_string (JStr u) = True"
| "is_string v = False"

fun is_boolean :: "json \<Rightarrow> bool" where
  "is_boolean (JBool b) = True"
| "is_boolean v = False"

fun is_array_of :: "(json \<Rightarrow> bool) \<Rightarrow> json \<Rightarrow> bool" where
  "is_array_of P (JArr xs) = list_all P xs"
| "is_array_of P v = False"

fun is_record_of :: "(json \<Rightarrow> bool) \<Rightarrow> json \<Rightarrow> bool" where
  "is_record_of P (JObj kvs) = list_all (\<lambda>(k, v). P v) kvs"
| "is_record_of P v = False"

definition typed_annotations :: "page \<Rightarrow> bool" where
  "typed_annotations s \<longleftrightarrow>
     is_array_of is_string (classes s) \<and>
     is_record_of is_string (repoClasses s) \<and>
     is_record_of (is_array_of is_string) (customUrls s) \<and>
     is_record_of is_boolean (repoEnabled s) \<and>
     is_record_of is_string (repoDescriptions s)"

subsection \<open>Import of the class data (version with the single URL layer)\<close>

text \<open>
  \<^verbatim>\<open>
  function persistClasses() {
    localStorage.setItem('repomgr_classes', JSON.stringify(classes));
    localStorage.setItem('repomgr_repo_classes', JSON.stringify(repoClasses));
    localStorage.setItem('repomgr_repo_urls', JSON.stringify(repoUrls));
    localStorage.setItem('repomgr_repo_enabled', JSON.stringify(repoEnabled));
    localStorage.setItem('repomgr_repo_descriptions', JSON.stringify(repoDescriptions));
  }
  \<close>
\<close>

definition persistClasses :: "route_page \<Rightarrow> route_page" where
  "persistClasses s =
     s\<lparr>localStorage := (localStorage s)
        (''repomgr_classes'' \<mapsto> StoredJson (classes s),
         ''repomgr_repo_classes'' \<mapsto> StoredJson (repoClasses s),
         ''repomgr_repo_urls'' \<mapsto> StoredJson (repoUrls s),
         ''repomgr_repo_enabled'' \<mapsto> StoredJson (repoEnabled s),
         ''repomgr_repo_descriptions'' \<mapsto> StoredJson (repoDescriptions s))\<rparr>"

text \<open>Decimal digits of a number, as \<open>String(n)\<close> writes an array index or a status code.\<close>

fun show_nat :: "nat \<Rightarrow> string" where
  "show_nat n =
     (if n < 10 then [''0123456789'' ! n]
      else show_nat (n div 10) @ [''0123456789'' ! (n mod 10)])"

declare show_nat.simps [simp del]

text \<open>
  The migration of the old single-string format, for \<open>urls = parsed.repoUrls\<close> (truthy):
  \<^verbatim>\<open>
  for (const key of Object.keys(urls)) {
    if (typeof urls[key] === 'string') {
      urls[key] = urls[key] ? [urls[key]] : [];
    }
  }
  \<close>
  On an object the loop visits the keys and rewrites the entries in place. On an array
  the keys are the indices, each visited once, so every element is rewritten where it
  stands. On a non-empty string the keys are the indices too, every \<open>urls[key]\<close> is a
  string, and the assignment to a property of a primitive throws a \<open>TypeError\<close> (module
  code is strict): the result is \<open>None\<close>. A number or a boolean has no keys.
\<close>

definition migrate_value :: "json \<Rightarrow> json" where
  "migrate_value v =
     (case v of JStr u \<Rightarrow> if u \<noteq> '''' then JArr [JStr u] else JArr [] | _ \<Rightarrow> v)"

fun migrate_urls :: "json \<Rightarrow> json option" where
  "migrate_urls (JObj kvs) =
     Some (JObj (fold (\<lambda>key urls.
                        case map_of urls key of
                          Some (JStr u) \<Rightarrow>
                            AList.update key (if u \<noteq> '''' then JArr [JStr u] else JArr []) urls
                        | _ \<Rightarrow> urls)
                   (map fst kvs) kvs))"
| "migrate_urls (JArr xs) = Some (JArr (map migrate_value xs))"
| "migrate_urls (JStr u) = (if u = '''' then Some (JStr u) else None)"
| "migrate_urls JNull = None"
| "migrate_urls v = Some v"

text \<open>
  \<open>Object.entries(v)\<close> for a truthy \<open>v\<close>: the entries of an object, the indexed elements
  of an array, the indexed characters of a string, nothing for a number or a boolean.
\<close>

fun entries :: "json \<Rightarrow> (string \<times> json) list" where
  "entries (JObj kvs) = kvs"
| "entries (JArr xs) = zip (map show_nat [0..<length xs]) xs"
| "entries (JStr u) = zip (map show_nat [0..<length u]) (map (\<lambda>c. JStr [c]) u)"
| "entries v = []"

text \<open>\<open>[...x]\<close>: the elements of an array, the characters of a string, a \<open>TypeError\<close> otherwise.\<close>

fun spread :: "json \<Rightarrow> json list option" where
  "spread (JArr xs) = Some xs"
| "spread (JStr u) = Some (map (\<lambda>c. JStr [c]) u)"
| "spread v = None"

text \<open>
  One statement \<^verbatim>\<open>repoUrls[key] = [...(repoUrls[key] || []), value]\<close> on the value the
  variable \<open>repoUrls\<close> holds. When that is an object, the read finds the own entry, and
  otherwise the inherited member if \<open>key\<close> names one: the member is truthy and the spread
  of it throws. The assignment replaces the own entry where it stands, or adds one at the
  end. When \<open>repoUrls\<close> is \<open>null\<close> the read throws; when it is a string, a number or a
  boolean the assignment throws. An array as the store (put there by an earlier import of
  an ill-typed payload) is not modelled: what the assignment does to it (a new element,
  holes, or a named property) has no JSON value.
\<close>

datatype 'a step = Next 'a | Throw | Outside

fun append_url :: "string \<Rightarrow> json \<Rightarrow> json \<Rightarrow> json step" where
  "append_url key value (JObj urls) =
     (case map_of urls key of
        None \<Rightarrow>
          if key \<in> set object_prototype_names then Throw
          else Next (JObj (AList.update key (JArr ([] @ [value])) urls))
      | Some v \<Rightarrow>
          (case spread (if truthy v then v else JArr []) of
             None \<Rightarrow> Throw
           | Some xs \<Rightarrow> Next (JObj (AList.update key (JArr (xs @ [value])) urls))))"
| "append_url key value (JArr xs) = Outside"
| "append_url key value v = Throw"

text \<open>
  \<^verbatim>\<open>
  for (const [key, value] of Object.entries(parsed.pages_urls.value)) {
    if (typeof value === 'string' && value) {
      repoUrls[key] = [...(repoUrls[key] || []), value];
    }
  }
  \<close>
  The loop returns the value of \<open>repoUrls\<close> it ends with, and whether it ended by an
  exception: what was appended before the exception stays.
\<close>

datatype appended = Completed json | Thrown json | Unmodelled

fun append_urls :: "(string \<times> json) list \<Rightarrow> json \<Rightarrow> appended" where
  "append_urls [] urls = Completed urls"
| "append_urls ((key, value) # rest) urls =
     (case value of
        JStr u \<Rightarrow>
          if u \<noteq> '''' then
            (case append_url key value urls of
               Next urls' \<Rightarrow> append_urls rest urls'
             | Throw \<Rightarrow> Thrown urls
             | Outside \<Rightarrow> Unmodelled)
          else append_urls rest urls
      | _ \<Rightarrow> append_urls rest urls)"

text \<open>
  \<^verbatim>\<open>
  function importClassData(data: string) {
    try {
      const parsed = JSON.parse(data);
      if (parsed.classes) classes = parsed.classes;
      if (parsed.repoClasses) repoClasses = parsed.repoClasses;
      if (parsed.repoUrls) {
        // Migrate old single-string format to array format
        const urls = parsed.repoUrls;
        for (const key of Object.keys(urls)) { ... }
        repoUrls = urls;
      }
      if (parsed.repoEnabled) repoEnabled = parsed.repoEnabled;
      if (parsed.repoDescriptions) repoDescriptions = parsed.repoDescriptions;
      // Handle pages_urls.value format (legacy single-string format)
      if (parsed.pages_urls?.value) {
        for (const [key, value] of Object.entries(parsed.pages_urls.value)) { ... }
      }
      persistClasses();
    } catch {}
  }
  \<close>
  An exception leaves the \<open>try\<close> block with the assignments made so far and without
  \<open>persistClasses\<close>. The result is \<open>None\<close> only where \<open>append_url\<close> is not modelled.
\<close>

definition importClassData :: "(string \<Rightarrow> json option) \<Rightarrow> string \<Rightarrow> route_page \<Rightarrow> route_page option" where
  "importClassData parse data s =
     (case parse data of
        None \<Rightarrow> Some s
      | Some JNull \<Rightarrow> Some s
      | Some parsed \<Rightarrow>
          (let s = when_truthy (member parsed ''classes'') (\<lambda>v s. s\<lparr>classes := v\<rparr>) s;
               s = when_truthy (member parsed ''repoClasses'') (\<lambda>v s. s\<lparr>repoClasses := v\<rparr>) s;
               migrated = (case member parsed ''repoUrls'' of
                             None \<Rightarrow> Some s
                           | Some urls \<Rightarrow>
                               if truthy urls
                               then map_option (\<lambda>urls. s\<lparr>repoUrls := urls\<rparr>) (migrate_urls urls)
                               else Some s)
           in case migrated of
                None \<Rightarrow> Some s
              | Some s \<Rightarrow>
                  (let s = when_truthy (member parsed ''repoEnabled'')
                             (\<lambda>v s. s\<lparr>repoEnabled := v\<rparr>) s;
                       s = when_truthy (member parsed ''repoDescriptions'')
                             (\<lambda>v s. s\<lparr>repoDescriptions := v\<rparr>) s
                   in case optional_member (member parsed ''pages_urls'') ''value'' of
                        None \<Rightarrow> Some (persistClasses s)
                      | Some v \<Rightarrow>
                          if truthy v then
                            (case append_urls (entries v) (repoUrls s) of
                               Completed urls \<Rightarrow> Some (persistClasses (s\<lparr>repoUrls := urls\<rparr>))
                             | Thrown urls \<Rightarrow> Some (s\<lparr>repoUrls := urls\<rparr>)
                             | Unmodelled \<Rightarrow> None)
                          else Some (persistClasses s))))"

section \<open>Fetching the repositories\<close>

subsection \<open>The server endpoint: cursor pagination over GraphQL\<close>

text \<open>
  The types of \<open>routes/api/repos/+server.ts\<close>. \<open>name\<close>, \<open>description\<close> and \<open>owner\<close> of a
  node carry the prefix \<open>node_\<close>, since \<open>Repo\<close> has fields of these names. The nested
  \<open>primaryLanguage: { name } | null\<close> is the optional name, and \<open>defaultBranchRef\<close> is the
  optional \<open>defaultBranchRef?.target?.history?.totalCount\<close>, the only part that is read.
  \<open>errors\<close> is the list of the messages of \<open>errors?: { message: string }[]\<close>, and
  \<open>data_repositories\<close> is \<open>result.data?.viewer.repositories\<close>.
\<close>

record RepoNode =
  node_name :: string
  node_description :: "string option"
  url :: string
  stargazerCount :: nat
  primaryLanguage :: "string option"
  homepageUrl :: "string option"
  isPrivate :: bool
  isFork :: bool
  createdAt :: string
  diskUsage :: nat
  node_owner :: Owner
  defaultBranchRef :: "nat option"

record PageInfo =
  hasNextPage :: bool
  endCursor :: "string option"

record Repositories =
  totalCount :: nat
  pageInfo :: PageInfo
  nodes :: "RepoNode list"

record GraphQLResponse =
  data_repositories :: "Repositories option"
  errors :: "string list option"

text \<open>
  What one \<open>fetch\<close> of the hosting API gives: no response at all (the promise rejects, or
  the body of a successful response is not JSON), or a status and the parsed body; the
  body is read only when the status is a success.
\<close>

datatype reply = NoReply | Reply nat GraphQLResponse

text \<open>\<open>res.ok\<close>.\<close>

definition ok :: "nat \<Rightarrow> bool" where
  "ok status \<longleftrightarrow> 200 \<le> status \<and> status \<le> 299"

text \<open>The JSON body the endpoint answers with: \<open>{ repos, error? }\<close>.\<close>

record ApiBody =
  body_repos :: "Repo list"
  body_error :: "string option"

text \<open>
  The endpoint answers with a status and a body, or its handler is left by an exception:
  that of a \<open>fetch\<close> that did not answer, or that of \<open>json\<close> when it is given a status
  no response with a body can have.
\<close>

datatype post_result = Responded nat ApiBody | HandlerThrew

text \<open>
  \<open>json(body, { status })\<close> constructs a \<open>Response\<close> with a body. The constructor throws a
  \<open>RangeError\<close> for a status outside 200 to 599, and a \<open>TypeError\<close> for a status whose
  response must not have a body; of these, \<open>fetch\<close> can deliver 204, 205 and 304.
\<close>

definition json_response :: "nat \<Rightarrow> ApiBody \<Rightarrow> post_result" where
  "json_response status body =
     (if status < 200 \<or> 599 < status \<or> status \<in> {204, 205, 304} then HandlerThrew
      else Responded status body)"

text \<open>
  \<^verbatim>\<open>
  const repos = allRepos.map((r) => ({
    name: r.name, html_url: r.url, description: r.description,
    language: r.primaryLanguage?.name ?? null, fork: r.isFork, private: r.isPrivate,
    stargazers_count: r.stargazerCount, created_at: r.createdAt, size: r.diskUsage,
    owner: r.owner, commits: r.defaultBranchRef?.target?.history?.totalCount
  }));
  return json({ repos });
  \<close>
\<close>

definition toRepo :: "RepoNode \<Rightarrow> Repo" where
  "toRepo r =
     \<lparr>name = node_name r, html_url = url r, description = node_description r,
      language = primaryLanguage r, fork = isFork r, is_private = isPrivate r,
      stargazers_count = stargazerCount r, created_at = createdAt r, size_kb = diskUsage r,
      owner = node_owner r, commits = defaultBranchRef r\<rparr>"

definition respond_repos :: "RepoNode list \<Rightarrow> post_result" where
  "respond_repos allRepos = Responded 200 \<lparr>body_repos = map toRepo allRepos, body_error = None\<rparr>"

text \<open>
  The pagination loop of the handler, with its variables \<open>allRepos\<close>, \<open>hasNextPage\<close> and
  \<open>cursor\<close>:
  \<^verbatim>\<open>
  while (hasNextPage) {
    const res = await fetch('https://api.github.com/graphql', { ...,
      body: JSON.stringify({ query, variables: { cursor } }) });
    if (!res.ok) {
      return json({ repos: [], error: `GitHub API error: ${res.status}` }, { status: res.status });
    }
    const result: GraphQLResponse = await res.json();
    if (result.errors?.length) {
      return json({ repos: [], error: result.errors[0].message }, { status: 400 });
    }
    const data = result.data?.viewer.repositories;
    if (!data) break;
    allRepos.push(...data.nodes);
    hasNextPage = data.pageInfo.hasNextPage;
    cursor = data.pageInfo.endCursor;
  }
  \<close>
  \<open>github\<close> is the hosting API as it answers the request with a given cursor. The loop
  runs as long as the API says there is a next page, so it need not end: the result is
  \<open>None\<close> when it does not. \<open>sent\<close> records the cursor of every request issued, in order;
  it is the only part of the model that is not a variable of the handler.
\<close>

partial_function (option) POST_loop ::
  "(string option \<Rightarrow> reply) \<Rightarrow> RepoNode list \<Rightarrow> bool \<Rightarrow> string option \<Rightarrow> string option list
     \<Rightarrow> (post_result \<times> string option list) option" where
  "POST_loop github allRepos hasNext cursor sent =
     (if hasNext then
        (case github cursor of
           NoReply \<Rightarrow> Some (HandlerThrew, sent @ [cursor])
         | Reply status result \<Rightarrow>
             if \<not> ok status then
               Some (json_response status
                       \<lparr>body_repos = [],
                        body_error = Some (''GitHub API error: '' @ show_nat status)\<rparr>,
                     sent @ [cursor])
             else
               (case errors result of
                  Some (message # others) \<Rightarrow>
                    Some (Responded 400 \<lparr>body_repos = [], body_error = Some message\<rparr>,
                          sent @ [cursor])
                | _ \<Rightarrow>
                    (case data_repositories result of
                       None \<Rightarrow> Some (respond_repos allRepos, sent @ [cursor])
                     | Some d \<Rightarrow>
                         POST_loop github (allRepos @ nodes d) (hasNextPage (pageInfo d))
                           (endCursor (pageInfo d)) (sent @ [cursor]))))
      else Some (respond_repos allRepos, sent))"

declare POST_loop.simps [code]

text \<open>
  \<^verbatim>\<open>
  export const POST: RequestHandler = async ({ request }) => {
    const { token } = await request.json();
    if (!token) { return json({ repos: [], error: 'Token required' }, { status: 400 }); }
    const allRepos: RepoNode[] = [];
    let hasNextPage = true;
    let cursor: string | null = null;
    while (hasNextPage) { ... }
    ...
  };
  \<close>
  The hosting API answers for the token of the request, the variable \<open>tok\<close> here (the page
  state has a field \<open>token\<close>).
\<close>

definition POST ::
  "(string \<Rightarrow> string option \<Rightarrow> reply) \<Rightarrow> string \<Rightarrow> (post_result \<times> string option list) option" where
  "POST github tok =
     (if tok = '''' then
        Some (Responded 400 \<lparr>body_repos = [], body_error = Some ''Token required''\<rparr>, [])
      else POST_loop (github tok) [] True None [])"

text \<open>
  A hosting API over a fixed list of records, as a concrete input: pages of 100, the
  cursor after \<open>k\<close> records being the string of \<open>k\<close> letters \<open>c\<close>.
\<close>

definition paged_github :: "RepoNode list \<Rightarrow> string option \<Rightarrow> reply" where
  "paged_github recs cursor =
     (let offset = (case cursor of None \<Rightarrow> 0 | Some c \<Rightarrow> length c);
          page = take 100 (drop offset recs)
      in Reply 200
           \<lparr>data_repositories = Some
              \<lparr>totalCount = length recs,
               pageInfo = \<lparr>hasNextPage = (offset + 100 < length recs),
                           endCursor = (if page = [] then None
                                        else Some (replicate (offset + length page) CHR ''c''))\<rparr>,
               nodes = page\<rparr>,
            errors = None\<rparr>)"

subsection \<open>The page: token path and numbered REST pages\<close>

text \<open>
  What one \<open>fetch\<close> of the REST listing gives: a rejection with the message of its error
  (also when \<open>res.json()\<close> rejects), or a status and the parsed array.
\<close>

datatype rest_reply = RestRejected string | RestResponse nat "Repo list"

text \<open>
  \<^verbatim>\<open>
  let allRepos: Repo[] = [];
  let page = 1;
  while (true) {
    const res = await fetch(`${baseUrl}?per_page=100&page=${page}`);
    if (!res.ok) throw new Error(`GitHub API error: ${res.status}`);
    const data: Repo[] = await res.json();
    allRepos = allRepos.concat(data);
    if (data.length < 100) break;
    page++;
  }
  \<close>
  The result is the message of the exception (\<open>Inl\<close>) or the accumulated list (\<open>Inr\<close>),
  with the page numbers requested, in order; \<open>None\<close> when the loop does not end.
\<close>

partial_function (option) rest_loop ::
  "(nat \<Rightarrow> rest_reply) \<Rightarrow> Repo list \<Rightarrow> nat \<Rightarrow> nat list \<Rightarrow> ((string + Repo list) \<times> nat list) option" where
  "rest_loop rest allRepos page sent =
     (case rest page of
        RestRejected message \<Rightarrow> Some (Inl message, sent @ [page])
      | RestResponse status data \<Rightarrow>
          if \<not> ok status then
            Some (Inl (''GitHub API error: '' @ show_nat status), sent @ [page])
          else if length data < 100 then Some (Inr (allRepos @ data), sent @ [page])
          else rest_loop rest (allRepos @ data) (page + 1) (sent @ [page]))"

declare rest_loop.simps [code]

text \<open>
  A REST listing of a fixed list of records, as a concrete input: page \<open>n\<close> (from 1) holds
  the records \<open>100 (n - 1)\<close> to \<open>100 n - 1\<close>.
\<close>

definition paged_rest :: "Repo list \<Rightarrow> nat \<Rightarrow> rest_reply" where
  "paged_rest recs page = RestResponse 200 (take 100 (drop (100 * (page - 1)) recs))"

text \<open>
  \<^verbatim>\<open>
  function persistGithub() {
    localStorage.setItem('repomgr_token', token);
    localStorage.setItem('repomgr_username', username);
    localStorage.setItem('repomgr_github', JSON.stringify(repos));
  }
  \<close>
  \<open>JSON.stringify(undefined)\<close> is \<open>undefined\<close>, and \<open>setItem\<close> stores it as the string
  \<open>undefined\<close>.
\<close>

definition persistGithub :: "'a page_vars_scheme \<Rightarrow> 'a page_vars_scheme" where
  "persistGithub s =
     s\<lparr>localStorage := (localStorage s)
        (''repomgr_token'' \<mapsto> StoredString (token s),
         ''repomgr_username'' \<mapsto> StoredString (username s),
         ''repomgr_github'' \<mapsto>
           (case repos s of
              Some fetched \<Rightarrow> StoredRepos fetched
            | None \<Rightarrow> StoredString ''undefined''))\<rparr>"

text \<open>
  What the page's \<open>fetch('/api/repos')\<close> followed by \<open>res.json()\<close> gives: a rejection with
  the message of its error, or the parsed body. The page does not look at the status, and
  it reads the members \<open>error\<close> and \<open>repos\<close> of whatever object the body is: either may
  be missing.
\<close>

record ApiResult =
  result_repos :: "Repo list option"
  result_error :: "string option"

datatype api_answer = Rejected string | Answered ApiResult

text \<open>
  \<^verbatim>\<open>
  async function fetchRepos() {
    if (!token && !username) return;
    loading = true;
    error = '';
    try {
      if (token) {
        const res = await fetch('/api/repos', { method: 'POST', ...,
          body: JSON.stringify({ token }) });
        const result = await res.json();
        if (result.error) throw new Error(result.error);
        repos = result.repos;
      } else {
        const baseUrl = `https://api.github.com/users/${username}/repos`;
        ... the loop above ...
        repos = allRepos;
      }
      persistGithub();
    } catch (e) {
      error = e instanceof Error ? e.message : 'Failed to fetch repos';
      repos = [];
    } finally {
      loading = false;
    }
  }
  \<close>
  \<open>api\<close> is the endpoint as the page sees it and \<open>rest\<close> the REST listing of a user; either
  answers \<open>None\<close> when it never answers, and then \<open>fetchRepos\<close> does not return.
\<close>

definition caught :: "string \<Rightarrow> 'a page_vars_scheme \<Rightarrow> 'a page_vars_scheme" where
  "caught message s = s\<lparr>error := message, repos := Some []\<rparr>"

definition fetchRepos ::
  "(string \<Rightarrow> api_answer option) \<Rightarrow> (string \<Rightarrow> nat \<Rightarrow> rest_reply)
     \<Rightarrow> 'a page_vars_scheme \<Rightarrow> 'a page_vars_scheme option" where
  "fetchRepos api rest s =
     (if token s = '''' \<and> username s = '''' then Some s
      else
        (let s = s\<lparr>loading := True, error := ''''\<rparr>;
             tried =
               (if token s \<noteq> '''' then
                  (case api (token s) of
                     None \<Rightarrow> None
                   | Some (Rejected message) \<Rightarrow> Some (caught message s)
                   | Some (Answered result) \<Rightarrow>
                       (case result_error result of
                          None \<Rightarrow> Some (persistGithub (s\<lparr>repos := result_repos result\<rparr>))
                        | Some message \<Rightarrow>
                            if message \<noteq> '''' then Some (caught message s)
                            else Some (persistGithub (s\<lparr>repos := result_repos result\<rparr>))))
                else
                  (case rest_loop (rest (username s)) [] 1 [] of
                     None \<Rightarrow> None
                   | Some (Inl message, sent) \<Rightarrow> Some (caught message s)
                   | Some (Inr allRepos, sent) \<Rightarrow>
                       Some (persistGithub (s\<lparr>repos := Some allRepos\<rparr>))))
         in map_option (\<lambda>s. s\<lparr>loading := False\<rparr>) tried))"

text \<open>
  The endpoint as the page sees it when the page and the endpoint run together. The body
  of an answer of the handler has both members. When the handler is left by an
  exception, the web framework answers in its place with status 500 and the JSON body
  \<open>{ message: 'Internal Error' }\<close>, which has neither \<open>repos\<close> nor \<open>error\<close>.
\<close>

definition api_of_POST ::
  "(string \<Rightarrow> string option \<Rightarrow> reply) \<Rightarrow> string \<Rightarrow> api_answer option" where
  "api_of_POST github tok =
     (case POST github tok of
        None \<Rightarrow> None
      | Some (Responded status body, sent) \<Rightarrow>
          Some (Answered \<lparr>result_repos = Some (body_repos body),
                           result_error = body_error body\<rparr>)
      | Some (HandlerThrew, sent) \<Rightarrow>
          Some (Answered \<lparr>result_repos = None, result_error = None\<rparr>))"

text \<open>A node, an erroring hosting API and a page that has fetched before, as concrete inputs.\<close>

definition sample_node :: RepoNode where
  "sample_node =
     \<lparr>node_name = ''a'', node_description = None, url = ''https://github.com/o/a'',
      stargazerCount = 0, primaryLanguage = None, homepageUrl = None, isPrivate = False,
      isFork = False, createdAt = ''2024-01-01T00:00:00Z'', diskUsage = 0,
      node_owner = \<lparr>login = ''o''\<rparr>, defaultBranchRef = None\<rparr>"

text \<open>
  The API answers the first request with a full page and a next cursor, and the second
  request with status 200 and a structured error whose message is the empty string.
\<close>

definition failing_github :: "string \<Rightarrow> string option \<Rightarrow> reply" where
  "failing_github tok cursor =
     (case cursor of
        None \<Rightarrow>
          Reply 200
            \<lparr>data_repositories = Some
               \<lparr>totalCount = 150,
                pageInfo = \<lparr>hasNextPage = True, endCursor = Some ''c100''\<rparr>,
                nodes = replicate 100 sample_node\<rparr>,
             errors = None\<rparr>
      | Some c \<Rightarrow> Reply 200 \<lparr>data_repositories = None, errors = Some ['''']\<rparr>)"

text \<open>
  The API answers the first request with a full page and a next cursor, and does not
  answer the second request.
\<close>

definition unreachable_github :: "string \<Rightarrow> string option \<Rightarrow> reply" where
  "unreachable_github tok cursor =
     (case cursor of
        None \<Rightarrow>
          Reply 200
            \<lparr>data_repositories = Some
               \<lparr>totalCount = 150,
                pageInfo = \<lparr>hasNextPage = True, endCursor = Some ''c100''\<rparr>,
                nodes = replicate 100 sample_node\<rparr>,
             errors = None\<rparr>
      | Some c \<Rightarrow> NoReply)"

text \<open>States and a parser used as concrete inputs.\<close>

definition initial_page :: page where
  "initial_page =
     \<lparr>token = '''', username = '''', repos = Some [], loading = False, error = '''',
      classes = JArr [], repoClasses = JObj [], repoEnabled = JObj [],
      repoDescriptions = JObj [], localStorage = Map.empty,
      tofuUrls = JObj [], customUrls = JObj []\<rparr>"

definition sample_page :: page where
  "sample_page =
     \<lparr>token = '''', username = ''octocat'', repos = Some [], loading = False, error = '''',
      classes = JArr [JStr ''lib''], repoClasses = JObj [(''o/a'', JStr ''lib'')],
      repoEnabled = JObj [(''o/a'', JBool True)],
      repoDescriptions = JObj [(''o/a'', JStr ''mine'')], localStorage = Map.empty,
      tofuUrls = JObj [(''a'', JStr ''https://t'')],
      customUrls = JObj [(''a'', JArr [JStr ''https://x''])]\<rparr>"

definition sample_route_page :: route_page where
  "sample_route_page =
     \<lparr>token = '''', username = ''octocat'', repos = Some [], loading = False, error = '''',
      classes = JArr [JStr ''lib''], repoClasses = JObj [(''o/a'', JStr ''lib'')],
      repoEnabled = JObj [(''o/a'', JBool True)],
      repoDescriptions = JObj [], localStorage = Map.empty,
      repoUrls = JObj [(''r'', JArr [JStr ''http://x''])]\<rparr>"

text \<open>Repositories used as concrete inputs: only owner, name, description and the two flags vary.\<close>

definition sample_repo :: "string \<Rightarrow> string \<Rightarrow> string option \<Rightarrow> bool \<Rightarrow> bool \<Rightarrow> Repo" where
  "sample_repo own nm desc frk priv =
     \<lparr>name = nm, html_url = ''https://github.com/'' @ own @ ''/'' @ nm, description = desc,
      language = None, fork = frk, is_private = priv, stargazers_count = 0,
      created_at = ''2024-01-01T00:00:00Z'', size_kb = 0, owner = \<lparr>login = own\<rparr>,
      commits = None\<rparr>"

definition fetched_page :: page where
  "fetched_page =
     initial_page\<lparr>token := ''ghp_x'', repos := Some [sample_repo ''o'' ''a'' None False False],
       localStorage := [''repomgr_github'' \<mapsto> StoredRepos [sample_repo ''o'' ''a'' None False False]]\<rparr>"

section \<open>Filters and the resolved description\<close>

text \<open>
  C6. The filter value "Sources" of the type column matches a repository exactly when its
  computed type is "Public" or "Private", that is, exactly when the type is not "Fork".
  On any list with 2 public, 1 private and 1 fork repository it keeps exactly the 3
  repositories that are not forks.
\<close>

theorem sources_filter_excludes_forks:
  "(type_filterFn r ''Sources'' \<longleftrightarrow> getType r = ''Public'' \<or> getType r = ''Private'') \<and>
   (type_filterFn r ''Sources'' \<longleftrightarrow> getType r \<noteq> ''Fork'') \<and>
   (length (filter (\<lambda>x. getType x = ''Public'') rs) = 2 \<and>
    length (filter (\<lambda>x. getType x = ''Private'') rs) = 1 \<and>
    length (filter (\<lambda>x. getType x = ''Fork'') rs) = 1 \<longrightarrow>
      filteredRows type_filterFn ''Sources'' rs = filter (\<lambda>x. \<not> fork x) rs \<and>
      length (filteredRows type_filterFn ''Sources'' rs) = 3 \<and>
      length rs = 4)"
proof -
  have match: "type_filterFn x ''Sources'' \<longleftrightarrow> \<not> fork x" for x
    by (simp add: type_filterFn_def getType_def)
  have kept: "filteredRows type_filterFn ''Sources'' xs = filter (\<lambda>x. \<not> fork x) xs" for xs
    by (simp add: filteredRows_def match)
  have count: "length (filter (\<lambda>x. \<not> fork x) xs) =
      length (filter (\<lambda>x. getType x = ''Public'') xs) +
      length (filter (\<lambda>x. getType x = ''Private'') xs)" for xs
    by (induction xs) (auto simp: getType_def)
  have total: "length xs =
      length (filter (\<lambda>x. \<not> fork x) xs) + length (filter (\<lambda>x. getType x = ''Fork'') xs)" for xs
    by (induction xs) (auto simp: getType_def)
  show ?thesis
    using count [of rs] total [of rs]
    by (simp add: kept) (simp add: type_filterFn_def getType_def)
qed

theorem sources_filter_excludes_forks_witness:
  "filteredRows type_filterFn ''Sources''
     [sample_repo ''o'' ''a'' None False False, sample_repo ''o'' ''b'' None True False,
      sample_repo ''o'' ''c'' None False True, sample_repo ''o'' ''d'' None False False] =
   [sample_repo ''o'' ''a'' None False False, sample_repo ''o'' ''c'' None False True,
    sample_repo ''o'' ''d'' None False False] \<and>
   length (filteredRows type_filterFn ''Sources''
     [sample_repo ''o'' ''a'' None False False, sample_repo ''o'' ''b'' None True False,
      sample_repo ''o'' ''c'' None False True, sample_repo ''o'' ''d'' None False False]) = 3"
  using sources_filter_excludes_forks
    [of "sample_repo ''o'' ''a'' None False False"
        "[sample_repo ''o'' ''a'' None False False, sample_repo ''o'' ''b'' None True False,
          sample_repo ''o'' ''c'' None False True, sample_repo ''o'' ''d'' None False False]"]
  by (simp add: getType_def sample_repo_def)

text \<open>
  C7. The filter value "(none)" of the class column matches a repository exactly when its
  class label is empty; the label is empty both when the repository's key is missing from
  the class mapping and when the key is mapped to the empty string, and the filter does
  not tell the two apart.
\<close>

theorem none_filter_matches_empty_class:
  "(class_filterFn labels r ''(none)'' \<longleftrightarrow> class_accessorFn labels r = '''') \<and>
   (class_accessorFn labels r = '''' \<longleftrightarrow>
      labels (repoKey r) = None \<or> labels (repoKey r) = Some '''') \<and>
   class_filterFn (labels(repoKey r := None)) r ''(none)'' \<and>
   class_filterFn (labels(repoKey r \<mapsto> '''')) r ''(none)''"
  by (auto simp: class_filterFn_def class_accessorFn_def split: option.splits)

text \<open>
  C8. The resolved description of a repository is the user's override when the override
  is a non-empty string; otherwise it is the remote description when there is one, and
  the empty string when there is none. An override that is the empty string gives the
  same result as no override. The export of the enabled projects writes the same
  resolved description for each repository it exports.
\<close>

theorem description_override_or_remote:
  "(\<forall>d. overrides (repoKey r) = Some d \<and> d \<noteq> '''' \<longrightarrow>
        description_accessorFn overrides r = d) \<and>
   (overrides (repoKey r) = None \<or> overrides (repoKey r) = Some '''' \<longrightarrow>
      (\<forall>x. description r = Some x \<longrightarrow> description_accessorFn overrides r = x) \<and>
      (description r = None \<longrightarrow> description_accessorFn overrides r = '''')) \<and>
   description_accessorFn (overrides(repoKey r \<mapsto> '''')) r =
     description_accessorFn (overrides(repoKey r := None)) r \<and>
   map row_Description (exportEnabledProjectData enabled labels overrides combined rs) =
     map (description_accessorFn overrides) (filter (\<lambda>x. enabled (repoKey x) = Some True) rs)"
proof -
  have exported:
    "map row_Description (exportEnabledProjectData enabled labels overrides combined rs) =
       map (description_accessorFn overrides) (filter (\<lambda>x. enabled (repoKey x) = Some True) rs)"
    by (simp add: exportEnabledProjectData_def description_accessorFn_def Let_def)
  show ?thesis
    unfolding exported
    by (auto simp: description_accessorFn_def or_else_def split: option.splits)
qed

theorem description_override_or_remote_witness:
  "description_accessorFn [''o/a'' \<mapsto> ''mine''] (sample_repo ''o'' ''a'' (Some ''theirs'') False False)
     = ''mine'' \<and>
   description_accessorFn [''o/a'' \<mapsto> ''''] (sample_repo ''o'' ''a'' (Some ''theirs'') False False)
     = ''theirs'' \<and>
   description_accessorFn Map.empty (sample_repo ''o'' ''a'' (Some ''theirs'') False False)
     = ''theirs'' \<and>
   description_accessorFn Map.empty (sample_repo ''o'' ''a'' None False False) = ''''"
  using description_override_or_remote
      [of "[''o/a'' \<mapsto> ''mine'']" "sample_repo ''o'' ''a'' (Some ''theirs'') False False"
          Map.empty Map.empty Map.empty "[]"]
    description_override_or_remote
      [of "[''o/a'' \<mapsto> '''']" "sample_repo ''o'' ''a'' (Some ''theirs'') False False"
          Map.empty Map.empty Map.empty "[]"]
    description_override_or_remote
      [of Map.empty "sample_repo ''o'' ''a'' (Some ''theirs'') False False"
          Map.empty Map.empty Map.empty "[]"]
    description_override_or_remote
      [of Map.empty "sample_repo ''o'' ''a'' None False False"
          Map.empty Map.empty Map.empty "[]"]
  by (simp add: repoKey_def sample_repo_def)

section \<open>Merging the URL layers\<close>

text \<open>What each of the two loops of \<open>combinedUrls\<close> leaves under a key.\<close>

lemma tofu_loop_returns:
  assumes "distinct (map fst t)" and "''__proto__'' \<notin> fst ` set t"
  shows "\<exists>m'. tofu_loop t m = Returns m' \<and>
           (\<forall>k. m' k = (case map_of t k of
                          None \<Rightarrow> m k
                        | Some link \<Rightarrow> if link \<noteq> '''' then Some [link] else m k))"
  using assms
proof (induction t arbitrary: m)
  case Nil
  then show ?case by simp
next
  case (Cons e t)
  obtain key link where e: "e = (key, link)" by (cases e)
  from Cons.prems have fresh: "map_of t key = None" and d: "distinct (map fst t)"
    and p: "''__proto__'' \<notin> fst ` set t" and key: "key \<noteq> ''__proto__''"
    by (auto simp: e map_of_eq_None_iff)
  show ?case
  proof (cases "link = ''''")
    case True
    from Cons.IH [OF d p, of m] obtain m' where
      m': "tofu_loop t m = Returns m'"
      "\<forall>k. m' k = (case map_of t k of
                     None \<Rightarrow> m k | Some link \<Rightarrow> if link \<noteq> '''' then Some [link] else m k)"
      by blast
    have "m' k = (case map_of (e # t) k of
                    None \<Rightarrow> m k | Some link \<Rightarrow> if link \<noteq> '''' then Some [link] else m k)" for k
      using m'(2) [rule_format, of k] fresh True by (cases "k = key") (simp_all add: e)
    with m'(1) True show ?thesis by (simp add: e)
  next
    case False
    from Cons.IH [OF d p, of "m(key \<mapsto> [link])"] obtain m' where
      m': "tofu_loop t (m(key \<mapsto> [link])) = Returns m'"
      "\<forall>k. m' k = (case map_of t k of
                     None \<Rightarrow> (m(key \<mapsto> [link])) k
                   | Some l \<Rightarrow> if l \<noteq> '''' then Some [l] else (m(key \<mapsto> [link])) k)"
      by blast
    have "m' k = (case map_of (e # t) k of
                    None \<Rightarrow> m k | Some link \<Rightarrow> if link \<noteq> '''' then Some [link] else m k)" for k
    proof (cases "k = key")
      case True
      with m'(2) [rule_format, of key, unfolded fresh] False show ?thesis by (simp add: e)
    next
      case neq: False
      then have keep: "(m(key \<mapsto> [link])) k = m k" by simp
      from neq m'(2) [rule_format, of k, unfolded keep] show ?thesis by (simp add: e)
    qed
    with m'(1) False key show ?thesis by (simp add: e)
  qed
qed

lemma custom_loop_returns:
  assumes "distinct (map fst c)" and "\<forall>k\<in>fst ` set c. k \<notin> set object_prototype_names"
  shows "\<exists>m'. custom_loop c m = Returns m' \<and>
           (\<forall>k. m' k = (case map_of c k of
                          None \<Rightarrow> m k
                        | Some urls \<Rightarrow> Some ((case m k of None \<Rightarrow> [] | Some r \<Rightarrow> r) @ urls)))"
  using assms
proof (induction c arbitrary: m)
  case Nil
  then show ?case by simp
next
  case (Cons e c)
  obtain key urls where e: "e = (key, urls)" by (cases e)
  from Cons.prems have fresh: "map_of c key = None" and d: "distinct (map fst c)"
    and p: "\<forall>k\<in>fst ` set c. k \<notin> set object_prototype_names"
    and key: "key \<notin> set object_prototype_names"
    by (auto simp: e map_of_eq_None_iff)
  define old where "old = (case m key of None \<Rightarrow> [] | Some r \<Rightarrow> r)"
  have step: "custom_loop (e # c) m = custom_loop c (m(key \<mapsto> old @ urls))"
    using key by (simp add: e object_read_def old_def split: option.splits)
  from Cons.IH [OF d p, of "m(key \<mapsto> old @ urls)"] obtain m' where
    m': "custom_loop c (m(key \<mapsto> old @ urls)) = Returns m'"
    "\<forall>k. m' k = (case map_of c k of
                   None \<Rightarrow> (m(key \<mapsto> old @ urls)) k
                 | Some us \<Rightarrow>
                     Some ((case (m(key \<mapsto> old @ urls)) k of None \<Rightarrow> [] | Some r \<Rightarrow> r) @ us))"
    by blast
  have "m' k = (case map_of (e # c) k of
                  None \<Rightarrow> m k
                | Some urls \<Rightarrow> Some ((case m k of None \<Rightarrow> [] | Some r \<Rightarrow> r) @ urls))" for k
  proof (cases "k = key")
    case True
    with m'(2) [rule_format, of key, unfolded fresh] show ?thesis by (simp add: e old_def)
  next
    case False
    then have keep: "(m(key \<mapsto> old @ urls)) k = m k" by simp
    from False m'(2) [rule_format, of k, unfolded keep] show ?thesis by (simp add: e)
  qed
  with m'(1) step show ?case by auto
qed

text \<open>
  The inherited members in the model: a repository named like one finds the member
  instead of a list, and a custom URL filed under such a name, with no infrastructure
  URL of that name, makes the derivation throw for every row.
\<close>

lemma inherited_member_in_the_url_column:
  "row_urls [] [] (sample_repo ''o'' ''constructor'' None False False) = Returns Member \<and>
   pages_url_accessorFn Map.empty (sample_repo ''o'' ''constructor'' None False False) = None \<and>
   row_urls [(''a'', ''https://t'')] [(''constructor'', [''https://x''])]
     (sample_repo ''o'' ''a'' None False False) = Throws \<and>
   row_urls [(''constructor'', ''https://t'')] [(''constructor'', [''https://x''])]
     (sample_repo ''o'' ''constructor'' None False False)
     = Returns (Urls [''https://t'', ''https://x''])"
  by (simp add: row_urls_def combinedUrls_def pages_url_urls_def pages_url_accessorFn_def
      object_read_def object_prototype_names_def sample_repo_def)

text \<open>
  C1, as the specification states it, fails on the code in two ways. The custom URLs are
  stored and looked up under the repository's bare name, like the infrastructure URL, so
  custom URLs filed under the owner-qualified key \<open>"o/a"\<close> are not shown for repository
  \<open>a\<close> of owner \<open>o\<close>; and only an empty infrastructure URL is dropped, an empty entry of
  the custom URL list stays in the merged list.
\<close>

theorem urls_by_owner_key_counterexample:
  "row_urls [] [(''o/a'', [''https://x''])] (sample_repo ''o'' ''a'' None False False)
     = Returns (Urls []) \<and>
   spec_resolvedUrls [] [(''o/a'', [''https://x''])] (sample_repo ''o'' ''a'' None False False)
     = [''https://x''] \<and>
   row_urls [(''a'', ''https://t'')] [(''a'', ['''', ''https://x''])]
       (sample_repo ''o'' ''a'' None False False)
     = Returns (Urls [''https://t'', '''', ''https://x'']) \<and>
   spec_resolvedUrls [(''a'', ''https://t'')] [(''o/a'', ['''', ''https://x''])]
       (sample_repo ''o'' ''a'' None False False)
     = [''https://t'', ''https://x'']"
  by (simp add: row_urls_def combinedUrls_def pages_url_urls_def object_read_def
      object_prototype_names_def spec_resolvedUrls_def sample_repo_def repoKey_def)

text \<open>
  C1, amended. Let no key of the custom URLs and not the repository's name be the name
  of a member that every object inherits (\<open>constructor\<close>, \<open>toString\<close>, \<open>__proto__\<close>, ...),
  and let no infrastructure URL be filed under \<open>__proto__\<close>. Then the merged URL list of
  the repository is the infrastructure URL stored under the repository's bare name (only
  if present and non-empty, placed first) followed by the custom URLs stored under the
  same bare name (if present), in their order, with nothing removed, deduplicated or
  reordered. The cell of the URL column shows this list, and the export of the enabled
  projects writes, for each repository it exports, what the cell of that repository
  reads.
\<close>

theorem urls_merge_by_bare_name:
  assumes "distinct (map fst infra)" and "distinct (map fst custom)"
    and "''__proto__'' \<notin> fst ` set infra"
    and "\<forall>k\<in>fst ` set custom. k \<notin> set object_prototype_names"
    and "name r \<notin> set object_prototype_names"
  shows "row_urls infra custom r =
     Returns (Urls
       ((case map_of infra (name r) of
           None \<Rightarrow> [] | Some link \<Rightarrow> if link \<noteq> '''' then [link] else []) @
        (case map_of custom (name r) of None \<Rightarrow> [] | Some urls \<Rightarrow> urls))) \<and>
   (\<exists>combined. combinedUrls infra custom = Returns combined \<and>
      map row_URLs (exportEnabledProjectData enabled labels overrides combined rs) =
        map (pages_url_urls combined) (filter (\<lambda>x. enabled (repoKey x) = Some True) rs))"
proof -
  from tofu_loop_returns [OF assms(1,3), of Map.empty] obtain m1 where
    m1: "tofu_loop infra Map.empty = Returns m1"
    "\<forall>k. m1 k = (case map_of infra k of
                   None \<Rightarrow> None | Some link \<Rightarrow> if link \<noteq> '''' then Some [link] else None)"
    by auto
  from custom_loop_returns [OF assms(2,4), of m1] obtain m2 where
    m2: "custom_loop custom m1 = Returns m2"
    "\<forall>k. m2 k = (case map_of custom k of
                   None \<Rightarrow> m1 k
                 | Some urls \<Rightarrow> Some ((case m1 k of None \<Rightarrow> [] | Some r \<Rightarrow> r) @ urls))"
    by blast
  have combined: "combinedUrls infra custom = Returns m2"
    by (simp add: combinedUrls_def m1(1) m2(1))
  have cell: "pages_url_urls m2 r =
     Urls ((case map_of infra (name r) of
              None \<Rightarrow> [] | Some link \<Rightarrow> if link \<noteq> '''' then [link] else []) @
           (case map_of custom (name r) of None \<Rightarrow> [] | Some urls \<Rightarrow> urls))"
    using assms(5)
    by (simp add: pages_url_urls_def object_read_def m2(2) [rule_format] m1(2) [rule_format]
        split: option.splits)
  have exported:
    "map row_URLs (exportEnabledProjectData enabled labels overrides m2 rs) =
       map (pages_url_urls m2) (filter (\<lambda>x. enabled (repoKey x) = Some True) rs)"
    by (simp add: exportEnabledProjectData_def Let_def)
  from combined cell exported show ?thesis
    by (simp add: row_urls_def)
qed

theorem urls_merge_by_bare_name_witness:
  "row_urls [(''a'', ''https://t''), (''b'', '''')]
            [(''b'', [''https://y'']), (''a'', [''https://x'', ''https://t'', ''https://x''])]
     (sample_repo ''o'' ''a'' None False False)
   = Returns (Urls [''https://t'', ''https://x'', ''https://t'', ''https://x''])"
  using urls_merge_by_bare_name
    [of "[(''a'', ''https://t''), (''b'', '''')]"
        "[(''b'', [''https://y'']), (''a'', [''https://x'', ''https://t'', ''https://x''])]"
        "sample_repo ''o'' ''a'' None False False" Map.empty Map.empty Map.empty "[]"]
  by (simp add: sample_repo_def object_prototype_names_def)

section \<open>Import and export of the custom data\<close>

text \<open>
  After a payload that parses to a value other than \<open>null\<close>, each of the five variables
  holds the payload's value for its key when that value is truthy, and its old value
  otherwise; then the bundle is persisted.
\<close>

lemma importCustomData_fields:
  assumes "parse data = Some parsed" and "parsed \<noteq> JNull"
  shows "importCustomData parse data s =
    persistCustom (s\<lparr>
      classes := (case member parsed ''classes'' of
                    None \<Rightarrow> classes s | Some v \<Rightarrow> if truthy v then v else classes s),
      repoClasses := (case member parsed ''repoClasses'' of
                    None \<Rightarrow> repoClasses s | Some v \<Rightarrow> if truthy v then v else repoClasses s),
      customUrls := (case member parsed ''customUrls'' of
                    None \<Rightarrow> customUrls s | Some v \<Rightarrow> if truthy v then v else customUrls s),
      repoEnabled := (case member parsed ''repoEnabled'' of
                    None \<Rightarrow> repoEnabled s | Some v \<Rightarrow> if truthy v then v else repoEnabled s),
      repoDescriptions := (case member parsed ''repoDescriptions'' of
                    None \<Rightarrow> repoDescriptions s
                  | Some v \<Rightarrow> if truthy v then v else repoDescriptions s)\<rparr>)"
proof -
  have c1: "when_truthy x (\<lambda>v s. s\<lparr>classes := v\<rparr>) t =
      t\<lparr>classes := (case x of None \<Rightarrow> classes t | Some v \<Rightarrow> if truthy v then v else classes t)\<rparr>"
    for x and t :: page
    by (simp add: when_truthy_def split: option.splits)
  have c2: "when_truthy x (\<lambda>v s. s\<lparr>repoClasses := v\<rparr>) t =
      t\<lparr>repoClasses := (case x of None \<Rightarrow> repoClasses t
                           | Some v \<Rightarrow> if truthy v then v else repoClasses t)\<rparr>"
    for x and t :: page
    by (simp add: when_truthy_def split: option.splits)
  have c3: "when_truthy x (\<lambda>v s. s\<lparr>customUrls := v\<rparr>) t =
      t\<lparr>customUrls := (case x of None \<Rightarrow> customUrls t
                          | Some v \<Rightarrow> if truthy v then v else customUrls t)\<rparr>"
    for x and t :: page
    by (simp add: when_truthy_def split: option.splits)
  have c4: "when_truthy x (\<lambda>v s. s\<lparr>repoEnabled := v\<rparr>) t =
      t\<lparr>repoEnabled := (case x of None \<Rightarrow> repoEnabled t
                           | Some v \<Rightarrow> if truthy v then v else repoEnabled t)\<rparr>"
    for x and t :: page
    by (simp add: when_truthy_def split: option.splits)
  have c5: "when_truthy x (\<lambda>v s. s\<lparr>repoDescriptions := v\<rparr>) t =
      t\<lparr>repoDescriptions := (case x of None \<Rightarrow> repoDescriptions t
                                | Some v \<Rightarrow> if truthy v then v else repoDescriptions t)\<rparr>"
    for x and t :: page
    by (simp add: when_truthy_def split: option.splits)
  from assms show ?thesis
    unfolding importCustomData_def Let_def c1 c2 c3 c4 c5
    by (cases parsed) (simp_all cong: option.case_cong if_cong)
qed

lemma typed_annotations_truthy:
  assumes "typed_annotations s"
  shows "truthy (classes s)" "truthy (repoClasses s)" "truthy (customUrls s)"
    "truthy (repoEnabled s)" "truthy (repoDescriptions s)"
proof -
  have a: "is_array_of P v \<Longrightarrow> truthy v" for P v by (cases v) simp_all
  have r: "is_record_of P v \<Longrightarrow> truthy v" for P v by (cases v) simp_all
  from assms show "truthy (classes s)" "truthy (repoClasses s)" "truthy (customUrls s)"
    "truthy (repoEnabled s)" "truthy (repoDescriptions s)"
    by (auto simp: typed_annotations_def dest: a r)
qed

text \<open>
  C5. Let the five annotation variables have their declared types, and let \<open>JSON.parse\<close>
  read back the bundle that \<open>JSON.stringify\<close> wrote. Then importing the exported string,
  into whatever state the page is in by then, gives each of \<open>classes\<close>, \<open>repoClasses\<close>,
  \<open>customUrls\<close>, \<open>repoEnabled\<close> and \<open>repoDescriptions\<close> the value it had at the export.
\<close>

theorem import_of_export_restores:
  assumes typed: "typed_annotations s"
    and reads_back: "parse (stringify (custom_bundle s)) = Some (custom_bundle s)"
  shows "classes (importCustomData parse (exportCustomData stringify s) s') = classes s \<and>
         repoClasses (importCustomData parse (exportCustomData stringify s) s') = repoClasses s \<and>
         customUrls (importCustomData parse (exportCustomData stringify s) s') = customUrls s \<and>
         repoEnabled (importCustomData parse (exportCustomData stringify s) s') = repoEnabled s \<and>
         repoDescriptions (importCustomData parse (exportCustomData stringify s) s')
           = repoDescriptions s"
proof -
  have p: "parse (exportCustomData stringify s) = Some (custom_bundle s)"
    using reads_back by (simp add: exportCustomData_def)
  have n: "custom_bundle s \<noteq> JNull" by (simp add: custom_bundle_def)
  note t = typed_annotations_truthy [OF typed]
  show ?thesis
    unfolding importCustomData_fields
      [where parse = parse and data = "exportCustomData stringify s" and s = s', OF p n]
    using t by (simp add: custom_bundle_def persistCustom_def)
qed

theorem import_of_export_restores_witness:
  "customUrls (importCustomData (map_of [(''bundle'', custom_bundle sample_page)])
       (exportCustomData (\<lambda>v. ''bundle'') sample_page) initial_page)
     = JObj [(''a'', JArr [JStr ''https://x''])] \<and>
   classes (importCustomData (map_of [(''bundle'', custom_bundle sample_page)])
       (exportCustomData (\<lambda>v. ''bundle'') sample_page) initial_page)
     = JArr [JStr ''lib'']"
  using import_of_export_restores
    [of sample_page "map_of [(''bundle'', custom_bundle sample_page)]" "\<lambda>v. ''bundle''"
        initial_page]
  by (simp add: typed_annotations_def sample_page_def)

text \<open>
  C10. For every payload that parses, and each of the five annotation variables: if the
  payload has no top-level key for the variable, or the key's value is \<open>null\<close>, \<open>false\<close>,
  \<open>0\<close> or the empty string, the import leaves the variable as it was. A key with such a
  value cannot be told from a missing key: the import of an object and the import of the
  same object without that key end in the same state.
\<close>

theorem import_ignores_absent_and_falsy_keys:
  assumes "parse data = Some parsed"
  shows
   "(member parsed ''classes'' = None \<or>
       (\<exists>v. member parsed ''classes'' = Some v \<and>
            (v = JNull \<or> v = JBool False \<or> v = JNum 0 \<or> v = JStr '''')) \<longrightarrow>
       classes (importCustomData parse data s) = classes s) \<and>
    (member parsed ''repoClasses'' = None \<or>
       (\<exists>v. member parsed ''repoClasses'' = Some v \<and>
            (v = JNull \<or> v = JBool False \<or> v = JNum 0 \<or> v = JStr '''')) \<longrightarrow>
       repoClasses (importCustomData parse data s) = repoClasses s) \<and>
    (member parsed ''customUrls'' = None \<or>
       (\<exists>v. member parsed ''customUrls'' = Some v \<and>
            (v = JNull \<or> v = JBool False \<or> v = JNum 0 \<or> v = JStr '''')) \<longrightarrow>
       customUrls (importCustomData parse data s) = customUrls s) \<and>
    (member parsed ''repoEnabled'' = None \<or>
       (\<exists>v. member parsed ''repoEnabled'' = Some v \<and>
            (v = JNull \<or> v = JBool False \<or> v = JNum 0 \<or> v = JStr '''')) \<longrightarrow>
       repoEnabled (importCustomData parse data s) = repoEnabled s) \<and>
    (member parsed ''repoDescriptions'' = None \<or>
       (\<exists>v. member parsed ''repoDescriptions'' = Some v \<and>
            (v = JNull \<or> v = JBool False \<or> v = JNum 0 \<or> v = JStr '''')) \<longrightarrow>
       repoDescriptions (importCustomData parse data s) = repoDescriptions s) \<and>
    (\<forall>kvs k v data'.
       parsed = JObj kvs \<and> map_of kvs k = Some v \<and>
       (v = JNull \<or> v = JBool False \<or> v = JNum 0 \<or> v = JStr '''') \<and>
       parse data' = Some (JObj (AList.delete k kvs)) \<longrightarrow>
       importCustomData parse data s = importCustomData parse data' s)"
proof (cases "parsed = JNull")
  case True
  with assms show ?thesis by (simp add: importCustomData_def)
next
  case False
  note norm = importCustomData_fields
    [where parse = parse and data = data and s = s, OF assms False]
  have f1: "classes (persistCustom t) = classes t"
    and f2: "repoClasses (persistCustom t) = repoClasses t"
    and f3: "customUrls (persistCustom t) = customUrls t"
    and f4: "repoEnabled (persistCustom t) = repoEnabled t"
    and f5: "repoDescriptions (persistCustom t) = repoDescriptions t" for t
    by (simp_all add: persistCustom_def)
  have same: "importCustomData parse data s = importCustomData parse data' s"
    if "parsed = JObj kvs" "map_of kvs k = Some v"
      "v = JNull \<or> v = JBool False \<or> v = JNum 0 \<or> v = JStr ''''"
      "parse data' = Some (JObj (AList.delete k kvs))" for kvs k v data'
  proof -
    have falsy: "\<not> truthy v" using that(3) by auto
    have pick: "(case map_of (AList.delete k kvs) k' of None \<Rightarrow> old
                 | Some w \<Rightarrow> if truthy w then w else old) =
                (case map_of kvs k' of None \<Rightarrow> old | Some w \<Rightarrow> if truthy w then w else old)"
      for k' and old :: json
      using that(2) falsy by (cases "k' = k") (simp_all add: delete_conv)
    show ?thesis
      unfolding norm importCustomData_fields
        [where parse = parse and data = data' and s = s, OF that(4), simplified]
      by (simp add: that(1) pick)
  qed
  show ?thesis
    unfolding norm f1 f2 f3 f4 f5
    using same by (auto simp: norm)
qed

theorem import_ignores_absent_and_falsy_keys_witness:
  "classes (importCustomData
      (map_of [(''{ classes: null, repoEnabled: false, customUrls: { b: [] } }'',
                JObj [(''classes'', JNull), (''repoEnabled'', JBool False),
                      (''customUrls'', JObj [(''b'', JArr [])])])])
      ''{ classes: null, repoEnabled: false, customUrls: { b: [] } }'' sample_page)
     = JArr [JStr ''lib''] \<and>
   repoEnabled (importCustomData
      (map_of [(''{ classes: null, repoEnabled: false, customUrls: { b: [] } }'',
                JObj [(''classes'', JNull), (''repoEnabled'', JBool False),
                      (''customUrls'', JObj [(''b'', JArr [])])])])
      ''{ classes: null, repoEnabled: false, customUrls: { b: [] } }'' sample_page)
     = JObj [(''o/a'', JBool True)] \<and>
   repoDescriptions (importCustomData
      (map_of [(''{ classes: null, repoEnabled: false, customUrls: { b: [] } }'',
                JObj [(''classes'', JNull), (''repoEnabled'', JBool False),
                      (''customUrls'', JObj [(''b'', JArr [])])])])
      ''{ classes: null, repoEnabled: false, customUrls: { b: [] } }'' sample_page)
     = JObj [(''o/a'', JStr ''mine'')]"
  using import_ignores_absent_and_falsy_keys
    [of "map_of [(''{ classes: null, repoEnabled: false, customUrls: { b: [] } }'',
                JObj [(''classes'', JNull), (''repoEnabled'', JBool False),
                      (''customUrls'', JObj [(''b'', JArr [])])])]"
        "''{ classes: null, repoEnabled: false, customUrls: { b: [] } }''"
        "JObj [(''classes'', JNull), (''repoEnabled'', JBool False),
               (''customUrls'', JObj [(''b'', JArr [])])]"
        sample_page]
  by (simp add: sample_page_def)

section \<open>Migration of the old URL format on import\<close>

lemma migrate_value_idem: "migrate_value (migrate_value v) = migrate_value v"
  by (cases v) (simp_all add: migrate_value_def)

lemma migrate_step_map_of:
  "map_of (case map_of urls key of
             Some (JStr u) \<Rightarrow> AList.update key (if u \<noteq> '''' then JArr [JStr u] else JArr []) urls
           | _ \<Rightarrow> urls) k =
   (if k = key then map_option migrate_value (map_of urls key) else map_of urls k)"
  by (auto simp: update_conv migrate_value_def split: option.splits json.splits)

lemma migrate_step_keys:
  "map fst (case map_of urls key of
             Some (JStr u) \<Rightarrow> AList.update key (if u \<noteq> '''' then JArr [JStr u] else JArr []) urls
           | _ \<Rightarrow> urls) = map fst urls"
  by (auto simp: update_keys dest: map_of_SomeD weak_map_of_SomeI split: option.splits json.splits
      intro: rev_image_eqI)

lemma migrate_fold:
  "map_of (fold (\<lambda>key urls.
             case map_of urls key of
               Some (JStr u) \<Rightarrow> AList.update key (if u \<noteq> '''' then JArr [JStr u] else JArr []) urls
             | _ \<Rightarrow> urls) ks urls) k =
     (if k \<in> set ks then map_option migrate_value (map_of urls k) else map_of urls k) \<and>
   map fst (fold (\<lambda>key urls.
             case map_of urls key of
               Some (JStr u) \<Rightarrow> AList.update key (if u \<noteq> '''' then JArr [JStr u] else JArr []) urls
             | _ \<Rightarrow> urls) ks urls) = map fst urls"
proof (induction ks arbitrary: urls)
  case Nil
  show ?case by simp
next
  case (Cons key ks)
  show ?case
    unfolding fold_Cons comp_apply
    by (simp add: Cons.IH migrate_step_map_of migrate_step_keys option.map_comp comp_def
        migrate_value_idem cong: option.map_cong)
qed

lemma migrate_urls_object:
  "\<exists>urls'. migrate_urls (JObj urls) = Some (JObj urls') \<and> map fst urls' = map fst urls \<and>
     (\<forall>k. map_of urls' k = map_option migrate_value (map_of urls k))"
proof -
  have "k \<notin> fst ` set urls \<Longrightarrow> map_of urls k = None" for k
    by (simp add: map_of_eq_None_iff)
  then show ?thesis
    by (auto simp: migrate_fold)
qed

lemma repoUrls_when_truthy:
  "(\<And>v t. repoUrls (stmt v t) = repoUrls t) \<Longrightarrow> repoUrls (when_truthy x stmt t) = repoUrls t"
  by (simp add: when_truthy_def split: option.splits)

lemma repoUrls_persistClasses: "repoUrls (persistClasses t) = repoUrls t"
  by (simp add: persistClasses_def)

text \<open>
  The append loop on an object. Each legacy name either has an array in the store, or has
  no entry and is not the name of an inherited member.
\<close>

lemma append_urls_object:
  assumes "distinct (map fst vs)"
    and "\<forall>k\<in>fst ` set vs.
           (case map_of old k of
              None \<Rightarrow> k \<notin> set object_prototype_names
            | Some v \<Rightarrow> \<exists>xs. v = JArr xs)"
  shows "\<exists>new. append_urls vs (JObj old) = Completed (JObj new) \<and>
           (\<forall>k. map_of new k =
              (case map_of vs k of
                 Some (JStr u) \<Rightarrow>
                   if u \<noteq> '''' then
                     Some (JArr ((case map_of old k of Some (JArr xs) \<Rightarrow> xs | _ \<Rightarrow> []) @ [JStr u]))
                   else map_of old k
               | _ \<Rightarrow> map_of old k))"
  using assms
proof (induction vs arbitrary: old)
  case Nil
  then show ?case by simp
next
  case (Cons e vs)
  obtain key val where e: "e = (key, val)" by (cases e)
  from Cons.prems(1) have fresh: "map_of vs key = None" and d: "distinct (map fst vs)"
    and notin: "key \<notin> fst ` set vs"
    by (simp_all add: e map_of_eq_None_iff)
  from Cons.prems(2) have here:
    "(case map_of old key of
        None \<Rightarrow> key \<notin> set object_prototype_names | Some v \<Rightarrow> \<exists>xs. v = JArr xs)"
    and later: "\<forall>k\<in>fst ` set vs.
           (case map_of old k of
              None \<Rightarrow> k \<notin> set object_prototype_names
            | Some v \<Rightarrow> \<exists>xs. v = JArr xs)"
    by (simp_all add: e)
  show ?case
  proof (cases "\<exists>u. val = JStr u \<and> u \<noteq> ''''")
    case False
    then have skip: "append_urls (e # vs) (JObj old) = append_urls vs (JObj old)"
      by (cases val) (simp_all add: e)
    from Cons.IH [OF d later] obtain new where
      n: "append_urls vs (JObj old) = Completed (JObj new)"
      "\<forall>k. map_of new k =
              (case map_of vs k of
                 Some (JStr u) \<Rightarrow>
                   if u \<noteq> '''' then
                     Some (JArr ((case map_of old k of Some (JArr xs) \<Rightarrow> xs | _ \<Rightarrow> []) @ [JStr u]))
                   else map_of old k
               | _ \<Rightarrow> map_of old k)"
      by blast
    have "map_of new k =
              (case map_of (e # vs) k of
                 Some (JStr u) \<Rightarrow>
                   if u \<noteq> '''' then
                     Some (JArr ((case map_of old k of Some (JArr xs) \<Rightarrow> xs | _ \<Rightarrow> []) @ [JStr u]))
                   else map_of old k
               | _ \<Rightarrow> map_of old k)" for k
      using n(2) [rule_format, of k] False fresh
      by (cases "k = key") (auto simp: e split: json.splits)
    with n(1) skip show ?thesis by auto
  next
    case True
    then obtain u where v: "val = JStr u" "u \<noteq> ''''" by blast
    define xs where "xs = (case map_of old key of Some (JArr ys) \<Rightarrow> ys | _ \<Rightarrow> [])"
    define old' where "old' = AList.update key (JArr (xs @ [JStr u])) old"
    have step: "append_url key (JStr u) (JObj old) = Next (JObj old')"
      using here by (auto simp: old'_def xs_def split: option.splits)
    have keep: "map_of old' k = map_of old k" if "k \<noteq> key" for k
      using that by (simp add: old'_def update_conv)
    have got: "map_of old' key = Some (JArr (xs @ [JStr u]))"
      by (simp add: old'_def update_conv)
    have inv: "\<forall>k\<in>fst ` set vs.
           (case map_of old' k of
              None \<Rightarrow> k \<notin> set object_prototype_names
            | Some v \<Rightarrow> \<exists>xs. v = JArr xs)"
    proof
      fix k assume k: "k \<in> fst ` set vs"
      with notin have neq: "k \<noteq> key" by blast
      from later k have "(case map_of old k of
              None \<Rightarrow> k \<notin> set object_prototype_names
            | Some v \<Rightarrow> \<exists>xs. v = JArr xs)"
        by blast
      then show "(case map_of old' k of
              None \<Rightarrow> k \<notin> set object_prototype_names
            | Some v \<Rightarrow> \<exists>xs. v = JArr xs)"
        unfolding keep [OF neq] .
    qed
    have run: "append_urls (e # vs) (JObj old) = append_urls vs (JObj old')"
      by (simp add: e v step del: append_url.simps)
    from Cons.IH [OF d inv] obtain new where
      n: "append_urls vs (JObj old') = Completed (JObj new)"
      "\<forall>k. map_of new k =
              (case map_of vs k of
                 Some (JStr u) \<Rightarrow>
                   if u \<noteq> '''' then
                     Some (JArr ((case map_of old' k of Some (JArr xs) \<Rightarrow> xs | _ \<Rightarrow> []) @ [JStr u]))
                   else map_of old' k
               | _ \<Rightarrow> map_of old' k)"
      by blast
    have "map_of new k =
              (case map_of (e # vs) k of
                 Some (JStr u) \<Rightarrow>
                   if u \<noteq> '''' then
                     Some (JArr ((case map_of old k of Some (JArr xs) \<Rightarrow> xs | _ \<Rightarrow> []) @ [JStr u]))
                   else map_of old k
               | _ \<Rightarrow> map_of old k)" for k
    proof (cases "k = key")
      case True
      from True show ?thesis
        using n(2) [rule_format, of key, unfolded fresh got]
        by (simp add: e v xs_def)
    next
      case False
      from False show ?thesis
        using n(2) [rule_format, of k, unfolded keep [OF False]]
        by (simp add: e)
    qed
    with n(1) run show ?thesis by auto
  qed
qed

text \<open>The body of \<open>importClassData\<close> once the payload has parsed to a value other than \<open>null\<close>.\<close>

lemma importClassData_store:
  assumes p: "parse data = Some parsed" and nn: "parsed \<noteq> JNull"
    and m: "(case member parsed ''repoUrls'' of
               None \<Rightarrow> Some (repoUrls s)
             | Some urls \<Rightarrow> if truthy urls then migrate_urls urls else Some (repoUrls s))
            = Some b0"
    and run: "(case optional_member (member parsed ''pages_urls'') ''value'' of
                 None \<Rightarrow> Completed b0
               | Some v \<Rightarrow> if truthy v then append_urls (entries v) b0 else Completed b0)
              = Completed new"
  shows "\<exists>t. importClassData parse data s = Some t \<and> repoUrls t = new \<and>
           localStorage t ''repomgr_repo_urls'' = Some (StoredJson new)"
proof -
  define s2 where "s2 = when_truthy (member parsed ''repoClasses'') (\<lambda>v s. s\<lparr>repoClasses := v\<rparr>)
      (when_truthy (member parsed ''classes'') (\<lambda>v s. s\<lparr>classes := v\<rparr>) s)"
  have r2: "repoUrls s2 = repoUrls s"
    by (simp add: s2_def repoUrls_when_truthy)
  define s3 where "s3 = s2\<lparr>repoUrls := b0\<rparr>"
  have mig: "(case member parsed ''repoUrls'' of
                None \<Rightarrow> Some s2
              | Some urls \<Rightarrow>
                  if truthy urls
                  then map_option (\<lambda>urls. s2\<lparr>repoUrls := urls\<rparr>) (migrate_urls urls)
                  else Some s2) = Some s3"
    using m r2
    by (auto simp: s3_def split: option.splits if_splits)
  define s5 where "s5 = when_truthy (member parsed ''repoDescriptions'')
      (\<lambda>v s. s\<lparr>repoDescriptions := v\<rparr>)
      (when_truthy (member parsed ''repoEnabled'') (\<lambda>v s. s\<lparr>repoEnabled := v\<rparr>) s3)"
  have r5: "repoUrls s5 = b0"
    by (simp add: s5_def s3_def repoUrls_when_truthy)
  have body: "importClassData parse data s =
      (case optional_member (member parsed ''pages_urls'') ''value'' of
         None \<Rightarrow> Some (persistClasses s5)
       | Some v \<Rightarrow>
           if truthy v then
             (case append_urls (entries v) (repoUrls s5) of
                Completed urls \<Rightarrow> Some (persistClasses (s5\<lparr>repoUrls := urls\<rparr>))
              | Thrown urls \<Rightarrow> Some (s5\<lparr>repoUrls := urls\<rparr>)
              | Unmodelled \<Rightarrow> None)
           else Some (persistClasses s5))"
    using nn mig unfolding importClassData_def p Let_def s5_def s2_def
    by (cases parsed) auto
  have same: "s5\<lparr>repoUrls := b0\<rparr> = s5" using r5 by simp
  show ?thesis
    using run unfolding body r5
    by (auto simp: persistClasses_def r5 same split: option.splits if_splits)
qed

lemma import_class_data_urls:
  assumes p: "parse data = Some parsed" and nn: "parsed \<noteq> JNull"
    and store:
      "member parsed ''repoUrls'' = Some (JObj urls) \<and>
         base = (\<lambda>k. case map_of urls k of
                        None \<Rightarrow> None
                      | Some (JStr u) \<Rightarrow> Some (if u \<noteq> '''' then JArr [JStr u] else JArr [])
                      | Some v \<Rightarrow> Some v) \<or>
       (member parsed ''repoUrls'' = None \<or>
        (\<exists>v. member parsed ''repoUrls'' = Some v \<and> \<not> truthy v)) \<and>
         repoUrls s = JObj old \<and> base = map_of old"
    and legacy:
      "(optional_member (member parsed ''pages_urls'') ''value'' = None \<or>
        (\<exists>v. optional_member (member parsed ''pages_urls'') ''value'' = Some v \<and> \<not> truthy v)) \<and>
         vs = [] \<or>
       optional_member (member parsed ''pages_urls'') ''value'' = Some (JObj vs) \<and>
         distinct (map fst vs) \<and>
         (\<forall>k\<in>fst ` set vs.
            case base k of
              None \<Rightarrow> k \<notin> set object_prototype_names
            | Some v \<Rightarrow> \<exists>xs. v = JArr xs)"
  shows "\<exists>t new. importClassData parse data s = Some t \<and> repoUrls t = JObj new \<and>
           localStorage t ''repomgr_repo_urls'' = Some (StoredJson (JObj new)) \<and>
           (\<forall>k. map_of new k =
              (case map_of vs k of
                 Some (JStr u) \<Rightarrow>
                   if u \<noteq> '''' then
                     Some (JArr ((case base k of Some (JArr xs) \<Rightarrow> xs | _ \<Rightarrow> []) @ [JStr u]))
                   else base k
               | _ \<Rightarrow> base k))"
proof -
  have mv: "map_option migrate_value x =
      (case x of None \<Rightarrow> None
       | Some (JStr u) \<Rightarrow> Some (if u \<noteq> '''' then JArr [JStr u] else JArr [])
       | Some v \<Rightarrow> Some v)" for x
    by (simp add: migrate_value_def split: option.splits json.splits)
  obtain b0 where b0: "(case member parsed ''repoUrls'' of
                          None \<Rightarrow> Some (repoUrls s)
                        | Some urls \<Rightarrow> if truthy urls then migrate_urls urls
                                       else Some (repoUrls s)) = Some (JObj b0)"
    and base: "base = map_of b0"
  proof -
    from store show ?thesis
    proof (elim disjE conjE)
      assume u: "member parsed ''repoUrls'' = Some (JObj urls)"
        and b: "base = (\<lambda>k. case map_of urls k of
                        None \<Rightarrow> None
                      | Some (JStr u) \<Rightarrow> Some (if u \<noteq> '''' then JArr [JStr u] else JArr [])
                      | Some v \<Rightarrow> Some v)"
      obtain urls' where m: "migrate_urls (JObj urls) = Some (JObj urls')"
        and vals: "\<forall>k. map_of urls' k = map_option migrate_value (map_of urls k)"
        using migrate_urls_object by blast
      have "base = map_of urls'"
        unfolding b by (rule ext) (simp add: vals mv)
      with u m that show ?thesis by (simp del: migrate_urls.simps)
    next
      assume "member parsed ''repoUrls'' = None" "repoUrls s = JObj old" "base = map_of old"
      with that show ?thesis by simp
    next
      assume "\<exists>v. member parsed ''repoUrls'' = Some v \<and> \<not> truthy v"
        "repoUrls s = JObj old" "base = map_of old"
      with that show ?thesis by auto
    qed
  qed
  obtain new where run:
    "(case optional_member (member parsed ''pages_urls'') ''value'' of
        None \<Rightarrow> Completed (JObj b0)
      | Some v \<Rightarrow> if truthy v then append_urls (entries v) (JObj b0) else Completed (JObj b0))
     = Completed (JObj new)"
    and new: "\<forall>k. map_of new k =
              (case map_of vs k of
                 Some (JStr u) \<Rightarrow>
                   if u \<noteq> '''' then
                     Some (JArr ((case map_of b0 k of Some (JArr xs) \<Rightarrow> xs | _ \<Rightarrow> []) @ [JStr u]))
                   else map_of b0 k
               | _ \<Rightarrow> map_of b0 k)"
  proof -
    from legacy show ?thesis
    proof (elim disjE conjE)
      assume "optional_member (member parsed ''pages_urls'') ''value'' = None" "vs = []"
      with that [of b0] show ?thesis by simp
    next
      assume "\<exists>v. optional_member (member parsed ''pages_urls'') ''value'' = Some v \<and> \<not> truthy v"
        "vs = []"
      with that [of b0] show ?thesis by auto
    next
      assume l: "optional_member (member parsed ''pages_urls'') ''value'' = Some (JObj vs)"
        and d: "distinct (map fst vs)"
        and c: "\<forall>k\<in>fst ` set vs.
            case base k of
              None \<Rightarrow> k \<notin> set object_prototype_names
            | Some v \<Rightarrow> \<exists>xs. v = JArr xs"
      from append_urls_object [OF d c [unfolded base]] obtain n where
        "append_urls vs (JObj b0) = Completed (JObj n)"
        "\<forall>k. map_of n k =
              (case map_of vs k of
                 Some (JStr u) \<Rightarrow>
                   if u \<noteq> '''' then
                     Some (JArr ((case map_of b0 k of Some (JArr xs) \<Rightarrow> xs | _ \<Rightarrow> []) @ [JStr u]))
                   else map_of b0 k
               | _ \<Rightarrow> map_of b0 k)"
        by blast
      with that [of n] l show ?thesis by simp
    qed
  qed
  from importClassData_store [where parse = parse and data = data and s = s, OF p nn b0 run] new show ?thesis
    unfolding base by blast
qed

text \<open>
  A legacy name that is the name of an inherited member and has no entry in the store:
  the read finds the member, the spread throws, the \<open>catch\<close> swallows the exception, and
  the import ends with nothing appended (also not the later names) and nothing persisted.
\<close>

lemma inherited_member_stops_the_append:
  "importClassData
     (map_of [(''{ pages_urls: { value: { constructor: http://y, r: http://z } } }'',
               JObj [(''pages_urls'', JObj [(''value'',
                 JObj [(''constructor'', JStr ''http://y''), (''r'', JStr ''http://z'')])])])])
     ''{ pages_urls: { value: { constructor: http://y, r: http://z } } }'' sample_route_page
   = Some sample_route_page"
  by (simp add: importClassData_def sample_route_page_def when_truthy_def optional_member_def
      object_prototype_names_def)

text \<open>
  C3, as the specification states it, fails on the code. In the version of the page
  that has \<open>customUrls\<close>, \<open>importCustomData\<close> assigns the payload's \<open>customUrls\<close> as it
  is, so a bare string stays a bare string; a legacy payload does not touch
  \<open>customUrls\<close>, neither through \<open>importTofuOutput\<close> (which replaces the separate layer
  \<open>tofuUrls\<close>) nor through \<open>importCustomData\<close> (which does not read \<open>pages_urls\<close>). In
  the version that migrates, \<open>importClassData\<close> does not read a key \<open>customUrls\<close> at all.
\<close>

theorem import_migration_counterexample:
  "customUrls (importCustomData
      (map_of [(''{ customUrls: { r: http://x } }'',
                JObj [(''customUrls'', JObj [(''r'', JStr ''http://x'')])])])
      ''{ customUrls: { r: http://x } }'' initial_page)
     = JObj [(''r'', JStr ''http://x'')] \<and>
   customUrls (importCustomData
      (map_of [(''{ customUrls: { r: http://x } }'',
                JObj [(''customUrls'', JObj [(''r'', JStr ''http://x'')])])])
      ''{ customUrls: { r: http://x } }'' initial_page)
     \<noteq> JObj [(''r'', JArr [JStr ''http://x''])] \<and>
   customUrls (importTofuOutput
      (map_of [(''{ pages_urls: { value: { r: http://y } } }'',
                JObj [(''pages_urls'', JObj [(''value'', JObj [(''r'', JStr ''http://y'')])])])])
      ''{ pages_urls: { value: { r: http://y } } }''
      (initial_page\<lparr>customUrls := JObj [(''r'', JArr [JStr ''http://x''])]\<rparr>))
     = JObj [(''r'', JArr [JStr ''http://x''])] \<and>
   customUrls (importCustomData
      (map_of [(''{ pages_urls: { value: { r: http://y } } }'',
                JObj [(''pages_urls'', JObj [(''value'', JObj [(''r'', JStr ''http://y'')])])])])
      ''{ pages_urls: { value: { r: http://y } } }''
      (initial_page\<lparr>customUrls := JObj [(''r'', JArr [JStr ''http://x''])]\<rparr>))
     = JObj [(''r'', JArr [JStr ''http://x''])] \<and>
   map_option repoUrls (importClassData
      (map_of [(''{ customUrls: { r: http://x } }'',
                JObj [(''customUrls'', JObj [(''r'', JStr ''http://x'')])])])
      ''{ customUrls: { r: http://x } }'' (sample_route_page\<lparr>repoUrls := JObj []\<rparr>))
     = Some (JObj [])"
  by (simp add: importCustomData_def importTofuOutput_def importClassData_def initial_page_def
      sample_route_page_def when_truthy_def optional_member_def persistCustom_def
      persistTofuUrls_def persistClasses_def)

text \<open>
  C3, amended. The migration belongs to \<open>importClassData\<close>, the import of the version
  of the page whose URL layer is the variable and payload key \<open>repoUrls\<close>. On a payload
  that parses to a value other than \<open>null\<close>, the layer it starts from (\<open>base\<close>) is the
  payload's \<open>repoUrls\<close> object with every value that is a bare string replaced by a
  single-element array (a zero-element array if the string is empty) and all other
  values as they are; or, when the payload has no \<open>repoUrls\<close> or a falsy one, the layer
  the variable \<open>repoUrls\<close> holds. A legacy member \<open>{pages_urls: {value: {[name]: string}}}\<close>
  of the same payload is then appended to it, name by name: a non-empty string is added
  at the end of the array of its name, a name without an entry starts from the empty
  array, and an empty string or a value that is not a string appends nothing. This holds
  when each legacy name either has an array in the layer, or has no entry and is not the
  name of a member every object inherits. The resulting layer is assigned and persisted.
  In particular importing \<open>{repoUrls: {"r": "http://x"}}\<close> yields \<open>repoUrls\<close>
  \<open>{"r": ["http://x"]}\<close>, and importing \<open>{pages_urls: {value: {"r": "http://y"}}}\<close> appends
  \<open>"http://y"\<close> to \<open>repoUrls["r"]\<close>.

  In the version of the page with \<open>customUrls\<close> and \<open>tofuUrls\<close> nothing is migrated or
  appended: \<open>importCustomData\<close> assigns a truthy \<open>customUrls\<close> of the payload as it is and
  leaves \<open>customUrls\<close> alone when the payload has none, and \<open>importTofuOutput\<close> never
  changes \<open>customUrls\<close> and replaces \<open>tofuUrls\<close> by a truthy \<open>pages_urls.value\<close>.
\<close>

theorem import_class_data_migrates_and_appends:
  "(parse data = Some parsed \<and> parsed \<noteq> JNull \<and>
    (member parsed ''repoUrls'' = Some (JObj urls) \<and>
       base = (\<lambda>k. case map_of urls k of
                      None \<Rightarrow> None
                    | Some (JStr u) \<Rightarrow> Some (if u \<noteq> '''' then JArr [JStr u] else JArr [])
                    | Some v \<Rightarrow> Some v) \<or>
     (member parsed ''repoUrls'' = None \<or>
      (\<exists>v. member parsed ''repoUrls'' = Some v \<and> \<not> truthy v)) \<and>
       repoUrls s = JObj old \<and> base = map_of old) \<and>
    ((optional_member (member parsed ''pages_urls'') ''value'' = None \<or>
      (\<exists>v. optional_member (member parsed ''pages_urls'') ''value'' = Some v \<and> \<not> truthy v)) \<and>
       vs = [] \<or>
     optional_member (member parsed ''pages_urls'') ''value'' = Some (JObj vs) \<and>
       distinct (map fst vs) \<and>
       (\<forall>k\<in>fst ` set vs.
          case base k of
            None \<Rightarrow> k \<notin> set object_prototype_names
          | Some v \<Rightarrow> \<exists>xs. v = JArr xs)) \<longrightarrow>
      (\<exists>t new. importClassData parse data s = Some t \<and> repoUrls t = JObj new \<and>
         localStorage t ''repomgr_repo_urls'' = Some (StoredJson (JObj new)) \<and>
         (\<forall>k. map_of new k =
            (case map_of vs k of
               Some (JStr u) \<Rightarrow>
                 if u \<noteq> '''' then
                   Some (JArr ((case base k of Some (JArr xs) \<Rightarrow> xs | _ \<Rightarrow> []) @ [JStr u]))
                 else base k
             | _ \<Rightarrow> base k)))) \<and>
   (parse data = Some parsed \<and> member parsed ''customUrls'' = Some given \<and> truthy given \<longrightarrow>
      customUrls (importCustomData parse data s') = given) \<and>
   (parse data = Some parsed \<and> member parsed ''customUrls'' = None \<longrightarrow>
      customUrls (importCustomData parse data s') = customUrls s') \<and>
   customUrls (importTofuOutput parse data s') = customUrls s' \<and>
   (parse data = Some parsed \<and> parsed \<noteq> JNull \<and>
    optional_member (member parsed ''pages_urls'') ''value'' = Some given \<and> truthy given \<longrightarrow>
      tofuUrls (importTofuOutput parse data s') = given)"
proof (intro conjI impI)
  assume a: "parse data = Some parsed \<and> parsed \<noteq> JNull \<and>
    (member parsed ''repoUrls'' = Some (JObj urls) \<and>
       base = (\<lambda>k. case map_of urls k of
                      None \<Rightarrow> None
                    | Some (JStr u) \<Rightarrow> Some (if u \<noteq> '''' then JArr [JStr u] else JArr [])
                    | Some v \<Rightarrow> Some v) \<or>
     (member parsed ''repoUrls'' = None \<or>
      (\<exists>v. member parsed ''repoUrls'' = Some v \<and> \<not> truthy v)) \<and>
       repoUrls s = JObj old \<and> base = map_of old) \<and>
    ((optional_member (member parsed ''pages_urls'') ''value'' = None \<or>
      (\<exists>v. optional_member (member parsed ''pages_urls'') ''value'' = Some v \<and> \<not> truthy v)) \<and>
       vs = [] \<or>
     optional_member (member parsed ''pages_urls'') ''value'' = Some (JObj vs) \<and>
       distinct (map fst vs) \<and>
       (\<forall>k\<in>fst ` set vs.
          case base k of
            None \<Rightarrow> k \<notin> set object_prototype_names
          | Some v \<Rightarrow> \<exists>xs. v = JArr xs))"
  then have p: "parse data = Some parsed" and nn: "parsed \<noteq> JNull" by simp_all
  from a show "\<exists>t new. importClassData parse data s = Some t \<and> repoUrls t = JObj new \<and>
         localStorage t ''repomgr_repo_urls'' = Some (StoredJson (JObj new)) \<and>
         (\<forall>k. map_of new k =
            (case map_of vs k of
               Some (JStr u) \<Rightarrow>
                 if u \<noteq> '''' then
                   Some (JArr ((case base k of Some (JArr xs) \<Rightarrow> xs | _ \<Rightarrow> []) @ [JStr u]))
                 else base k
             | _ \<Rightarrow> base k))"
    by (intro import_class_data_urls [where parse = parse and data = data and s = s
          and urls = urls and old = old, OF p nn]) blast+
next
  assume a: "parse data = Some parsed \<and> member parsed ''customUrls'' = Some given \<and> truthy given"
  then have nn: "parsed \<noteq> JNull" by (cases parsed) simp_all
  from a show "customUrls (importCustomData parse data s') = given"
    by (simp add: importCustomData_fields [where parse = parse and data = data and s = s', OF _ nn]
        persistCustom_def)
next
  assume a: "parse data = Some parsed \<and> member parsed ''customUrls'' = None"
  show "customUrls (importCustomData parse data s') = customUrls s'"
  proof (cases "parsed = JNull")
    case True
    with a show ?thesis by (simp add: importCustomData_def)
  next
    case False
    with a show ?thesis
      by (simp add: importCustomData_fields [where parse = parse and data = data and s = s',
            OF _ False] persistCustom_def)
  qed
next
  show "customUrls (importTofuOutput parse data s') = customUrls s'"
    by (simp add: importTofuOutput_def when_truthy_def persistTofuUrls_def
        split: option.splits json.splits)
next
  assume a: "parse data = Some parsed \<and> parsed \<noteq> JNull \<and>
    optional_member (member parsed ''pages_urls'') ''value'' = Some given \<and> truthy given"
  then show "tofuUrls (importTofuOutput parse data s') = given"
    by (cases parsed) (simp_all add: importTofuOutput_def when_truthy_def persistTofuUrls_def)
qed

theorem import_class_data_migrates_and_appends_witness:
  "map_option repoUrls
     (importClassData
        (map_of [(''{ repoUrls: { r: http://x, q: <empty> } }'',
                  JObj [(''repoUrls'', JObj [(''r'', JStr ''http://x''), (''q'', JStr '''')])])])
        ''{ repoUrls: { r: http://x, q: <empty> } }'' sample_route_page)
     = Some (JObj [(''r'', JArr [JStr ''http://x'']), (''q'', JArr [])]) \<and>
   map_option repoUrls
     (importClassData
        (map_of [(''{ pages_urls: { value: { r: http://y } } }'',
                  JObj [(''pages_urls'', JObj [(''value'', JObj [(''r'', JStr ''http://y'')])])])])
        ''{ pages_urls: { value: { r: http://y } } }'' sample_route_page)
     = Some (JObj [(''r'', JArr [JStr ''http://x'', JStr ''http://y''])]) \<and>
   map_option repoUrls
     (importClassData
        (map_of [(''{ repoUrls: { r: http://x }, pages_urls: { value: { r: http://y, n: http://z } } }'',
                  JObj [(''repoUrls'', JObj [(''r'', JStr ''http://x'')]),
                        (''pages_urls'', JObj [(''value'',
                           JObj [(''r'', JStr ''http://y''), (''n'', JStr ''http://z'')])])])])
        ''{ repoUrls: { r: http://x }, pages_urls: { value: { r: http://y, n: http://z } } }''
        (sample_route_page\<lparr>repoUrls := JObj [(''old'', JArr [])]\<rparr>))
     = Some (JObj [(''r'', JArr [JStr ''http://x'', JStr ''http://y'']),
                   (''n'', JArr [JStr ''http://z''])])"
  using import_class_data_migrates_and_appends
     [where parse = "map_of [(''{ repoUrls: { r: http://x, q: <empty> } }'',
                  JObj [(''repoUrls'', JObj [(''r'', JStr ''http://x''), (''q'', JStr '''')])])]"
        and data = "''{ repoUrls: { r: http://x, q: <empty> } }''"
        and parsed = "JObj [(''repoUrls'', JObj [(''r'', JStr ''http://x''), (''q'', JStr '''')])]"
        and urls = "[(''r'', JStr ''http://x''), (''q'', JStr '''')]"
        and base = "\<lambda>k. case map_of [(''r'', JStr ''http://x''), (''q'', JStr '''')] k of
                      None \<Rightarrow> None
                    | Some (JStr u) \<Rightarrow> Some (if u \<noteq> '''' then JArr [JStr u] else JArr [])
                    | Some v \<Rightarrow> Some v"
        and s = sample_route_page and old = "[]" and vs = "[]" and given = JNull
        and s' = initial_page]
    import_class_data_migrates_and_appends
     [where parse = "map_of [(''{ pages_urls: { value: { r: http://y } } }'',
                  JObj [(''pages_urls'', JObj [(''value'', JObj [(''r'', JStr ''http://y'')])])])]"
        and data = "''{ pages_urls: { value: { r: http://y } } }''"
        and parsed = "JObj [(''pages_urls'', JObj [(''value'', JObj [(''r'', JStr ''http://y'')])])]"
        and urls = "[]" and base = "map_of [(''r'', JArr [JStr ''http://x''])]"
        and s = sample_route_page and old = "[(''r'', JArr [JStr ''http://x''])]"
        and vs = "[(''r'', JStr ''http://y'')]" and given = JNull and s' = initial_page]
    import_class_data_migrates_and_appends
     [where parse = "map_of [(''{ repoUrls: { r: http://x }, pages_urls: { value: { r: http://y, n: http://z } } }'',
                  JObj [(''repoUrls'', JObj [(''r'', JStr ''http://x'')]),
                        (''pages_urls'', JObj [(''value'',
                           JObj [(''r'', JStr ''http://y''), (''n'', JStr ''http://z'')])])])]"
        and data = "''{ repoUrls: { r: http://x }, pages_urls: { value: { r: http://y, n: http://z } } }''"
        and parsed = "JObj [(''repoUrls'', JObj [(''r'', JStr ''http://x'')]),
                        (''pages_urls'', JObj [(''value'',
                           JObj [(''r'', JStr ''http://y''), (''n'', JStr ''http://z'')])])]"
        and urls = "[(''r'', JStr ''http://x'')]"
        and base = "\<lambda>k. case map_of [(''r'', JStr ''http://x'')] k of
                      None \<Rightarrow> None
                    | Some (JStr u) \<Rightarrow> Some (if u \<noteq> '''' then JArr [JStr u] else JArr [])
                    | Some v \<Rightarrow> Some v"
        and s = "sample_route_page\<lparr>repoUrls := JObj [(''old'', JArr [])]\<rparr>" and old = "[]"
        and vs = "[(''r'', JStr ''http://y''), (''n'', JStr ''http://z'')]" and given = JNull
        and s' = initial_page]
  by (simp add: importClassData_def sample_route_page_def when_truthy_def optional_member_def
      persistClasses_def object_prototype_names_def)

section \<open>The numbered-page loop of the no-token path\<close>

lemma rest_loop_full_pages:
  assumes "\<And>p. page \<le> p \<Longrightarrow> p < final \<Longrightarrow>
             rest p = RestResponse (st p) (pages p) \<and> ok (st p) \<and> 100 \<le> length (pages p)"
    and "page \<le> final"
  shows "rest_loop rest acc page sent =
           rest_loop rest (acc @ concat (map pages [page..<final])) final (sent @ [page..<final])"
  using assms
proof (induction "final - page" arbitrary: page acc sent)
  case 0
  then show ?case by simp
next
  case (Suc n)
  then have lt: "page < final" by simp
  from Suc.prems(1) [of page] lt have r: "rest page = RestResponse (st page) (pages page)"
    and o: "ok (st page)" and full: "\<not> length (pages page) < 100" by simp_all
  have step: "rest_loop rest acc page sent =
      rest_loop rest (acc @ pages page) (Suc page) (sent @ [page])"
    by (subst rest_loop.simps) (simp add: r o full)
  have n: "n = final - Suc page" using Suc.hyps(2) by simp
  have ih: "rest_loop rest (acc @ pages page) (Suc page) (sent @ [page]) =
      rest_loop rest ((acc @ pages page) @ concat (map pages [Suc page..<final])) final
        ((sent @ [page]) @ [Suc page..<final])"
    using Suc.prems lt by (intro Suc.hyps(1) [OF n]) simp_all
  have u: "[page..<final] = page # [Suc page..<final]"
    using lt by (simp add: upt_conv_Cons)
  show ?case
    unfolding step ih u by simp
qed

lemma rest_loop_short_page:
  assumes "\<And>p. page \<le> p \<Longrightarrow> p < final \<Longrightarrow>
             rest p = RestResponse (st p) (pages p) \<and> ok (st p) \<and> 100 \<le> length (pages p)"
    and "rest final = RestResponse (st final) (pages final)" and "ok (st final)"
    and "length (pages final) < 100"
    and "page \<le> final"
  shows "rest_loop rest acc page sent =
           Some (Inr (acc @ concat (map pages [page..<Suc final])), sent @ [page..<Suc final])"
proof -
  have "rest_loop rest acc page sent =
      rest_loop rest (acc @ concat (map pages [page..<final])) final (sent @ [page..<final])"
    using assms(1,5) by (rule rest_loop_full_pages)
  also have "\<dots> = Some (Inr ((acc @ concat (map pages [page..<final])) @ pages final),
                        (sent @ [page..<final]) @ [final])"
    by (subst rest_loop.simps) (simp add: assms(2,3,4))
  finally show ?thesis using assms(5) by simp
qed

lemma rest_loop_returns_only_after_a_page_that_is_not_full:
  assumes "rest_loop rest acc page sent = Some y"
  shows "\<exists>p\<ge>page. \<not> (\<exists>status data. rest p = RestResponse status data \<and> ok status \<and>
                                          100 \<le> length data)"
proof (rule rest_loop.raw_induct
    [where P = "\<lambda>rest acc page sent y. \<exists>p\<ge>page. \<not> (\<exists>status data.
        rest p = RestResponse status data \<and> ok status \<and> 100 \<le> length data)",
     OF _ assms], goal_cases)
  case (1 loop rest acc page sent y)
  show ?case
  proof (cases "\<exists>status data. rest page = RestResponse status data \<and> ok status \<and>
                                100 \<le> length data")
    case False
    then show ?thesis by blast
  next
    case True
    then obtain status data where r: "rest page = RestResponse status data" "ok status"
      "100 \<le> length data" by blast
    with 1(2) have "loop rest (acc @ data) (page + 1) (sent @ [page]) = Some y"
      by simp
    from 1(1) [OF this] obtain p where "page + 1 \<le> p"
      "\<not> (\<exists>status data. rest p = RestResponse status data \<and> ok status \<and> 100 \<le> length data)"
      by blast
    then show ?thesis by (intro exI [of _ p]) simp
  qed
qed

lemma chunks_concat:
  "concat (map (\<lambda>p. take 100 (drop (100 * (p - 1)) recs)) [1..<Suc n]) = take (100 * n) recs"
proof (induction n)
  case 0
  show ?case by simp
next
  case (Suc n)
  have "take (100 * n) recs @ take 100 (drop (100 * n) recs) = take (100 * n + 100) recs"
    by (simp add: take_add)
  with Suc show ?case by (simp add: add.commute)
qed

lemma rest_loop_paged:
  "rest_loop (paged_rest recs) [] 1 [] = Some (Inr recs, [1..<length recs div 100 + 2])"
proof -
  define final where "final = length recs div 100 + 1"
  define pages where "pages = (\<lambda>p. take 100 (drop (100 * (p - 1)) recs))"
  have full: "paged_rest recs p = RestResponse 200 (pages p) \<and> ok 200 \<and> 100 \<le> length (pages p)"
    if "1 \<le> p" "p < final" for p
  proof -
    from that have "p \<le> length recs div 100" by (simp add: final_def)
    then have "100 * p \<le> 100 * (length recs div 100)" by simp
    also have "\<dots> \<le> length recs" by simp
    finally have "100 * (p - 1) + 100 \<le> length recs" using that(1) by (cases p) simp_all
    then show ?thesis by (simp add: paged_rest_def pages_def ok_def)
  qed
  have short: "length (pages final) < 100"
    by (simp add: pages_def final_def)
  have "rest_loop (paged_rest recs) [] 1 [] =
      Some (Inr ([] @ concat (map pages [1..<Suc final])), [] @ [1..<Suc final])"
    using full short
    by (intro rest_loop_short_page [where st = "\<lambda>p. 200"])
       (simp_all add: paged_rest_def pages_def ok_def final_def)
  moreover have "concat (map pages [1..<Suc final]) = recs"
    unfolding pages_def chunks_concat
    by (simp add: final_def)
  ultimately show ?thesis by (simp add: final_def)
qed

text \<open>
  C9. The loop of the no-token path requests the numbered pages 1, 2, ... and ends normally
  exactly at the first page that holds fewer than 100 records, with the concatenation of
  the pages read: if the pages before \<open>final\<close> are full and page \<open>final\<close> is short, it
  issues the requests \<open>1..final\<close>; if every page is full, it never returns. On a
  listing of \<open>recs\<close> in pages of 100 it returns \<open>recs\<close> after \<open>length recs div 100 + 1\<close>
  requests. When the last records fill their page exactly (\<open>length recs = 100 k\<close>,
  \<open>k > 0\<close>), page \<open>k\<close> holds 100 records, the loop asks for page \<open>k + 1\<close>, which is empty,
  and the empty page ends the loop with all of \<open>recs\<close>.
\<close>

theorem rest_pagination_stops_at_short_page:
  "((\<forall>p. 1 \<le> p \<and> p < final \<longrightarrow>
        rest p = RestResponse (st p) (pages p) \<and> ok (st p) \<and> 100 \<le> length (pages p)) \<and>
    rest final = RestResponse (st final) (pages final) \<and> ok (st final) \<and>
    length (pages final) < 100 \<and> 1 \<le> final \<longrightarrow>
      rest_loop rest [] 1 [] =
        Some (Inr (concat (map pages [1..<Suc final])), [1..<Suc final])) \<and>
   ((\<forall>p\<ge>1. \<exists>status data. rest p = RestResponse status data \<and> ok status \<and>
                             100 \<le> length data) \<longrightarrow>
      rest_loop rest [] 1 [] = None) \<and>
   rest_loop (paged_rest recs) [] 1 [] = Some (Inr recs, [1..<length recs div 100 + 2]) \<and>
   (0 < k \<and> length recs = 100 * k \<longrightarrow>
      paged_rest recs k = RestResponse 200 (drop (100 * (k - 1)) recs) \<and>
      length (drop (100 * (k - 1)) recs) = 100 \<and>
      paged_rest recs (k + 1) = RestResponse 200 [] \<and>
      rest_loop (paged_rest recs) [] 1 [] = Some (Inr recs, [1..<k + 2]))"
proof (intro conjI impI)
  assume a: "(\<forall>p. 1 \<le> p \<and> p < final \<longrightarrow>
        rest p = RestResponse (st p) (pages p) \<and> ok (st p) \<and> 100 \<le> length (pages p)) \<and>
    rest final = RestResponse (st final) (pages final) \<and> ok (st final) \<and>
    length (pages final) < 100 \<and> 1 \<le> final"
  then have "rest_loop rest [] 1 [] =
      Some (Inr ([] @ concat (map pages [1..<Suc final])), [] @ [1..<Suc final])"
    by (intro rest_loop_short_page [where st = st]) simp_all
  then show "rest_loop rest [] 1 [] =
      Some (Inr (concat (map pages [1..<Suc final])), [1..<Suc final])"
    by simp
next
  assume full: "\<forall>p\<ge>1. \<exists>status data. rest p = RestResponse status data \<and> ok status \<and>
                             100 \<le> length data"
  show "rest_loop rest [] 1 [] = None"
  proof (cases "rest_loop rest [] 1 []")
    case None
    then show ?thesis .
  next
    case (Some y)
    from rest_loop_returns_only_after_a_page_that_is_not_full [OF Some] full
    show ?thesis by blast
  qed
next
  show "rest_loop (paged_rest recs) [] 1 [] = Some (Inr recs, [1..<length recs div 100 + 2])"
    by (rule rest_loop_paged)
next
  assume k: "0 < k \<and> length recs = 100 * k"
  then have d: "100 * (k - 1) + 100 = length recs" by (cases k) simp_all
  from d show "paged_rest recs k = RestResponse 200 (drop (100 * (k - 1)) recs)"
    by (simp add: paged_rest_def)
  from d show "length (drop (100 * (k - 1)) recs) = 100" by simp
  from k show "paged_rest recs (k + 1) = RestResponse 200 []"
    by (simp add: paged_rest_def)
  from k have "length recs div 100 + 2 = k + 2" by simp
  with rest_loop_paged [of recs]
  show "rest_loop (paged_rest recs) [] 1 [] = Some (Inr recs, [1..<k + 2])"
    by (simp only:)
qed

theorem rest_pagination_stops_at_short_page_witness:
  "rest_loop (paged_rest (replicate 100 (sample_repo ''o'' ''a'' None False False))) [] 1 []
     = Some (Inr (replicate 100 (sample_repo ''o'' ''a'' None False False)), [1, 2]) \<and>
   paged_rest (replicate 100 (sample_repo ''o'' ''a'' None False False)) 2 = RestResponse 200 []"
proof -
  have requests: "[1..<(1::nat) + 2] = [1, 2]" by code_simp
  have hundred: "0 < (1::nat) \<and>
      length (replicate 100 (sample_repo ''o'' ''a'' None False False)) = 100 * 1"
    by simp
  from rest_pagination_stops_at_short_page
      [of 1 "paged_rest []" "\<lambda>p. 200" "\<lambda>p. []"
          "replicate 100 (sample_repo ''o'' ''a'' None False False)" 1]
    hundred
  have "paged_rest (replicate 100 (sample_repo ''o'' ''a'' None False False)) (1 + 1)
          = RestResponse 200 [] \<and>
        rest_loop (paged_rest (replicate 100 (sample_repo ''o'' ''a'' None False False))) [] 1 []
          = Some (Inr (replicate 100 (sample_repo ''o'' ''a'' None False False)), [1..<1 + 2])"
    by blast
  then show ?thesis
    by (simp only: requests one_add_one)
qed

section \<open>The cursor loop of the token path\<close>

lemma POST_loop_next_pages:
  assumes "\<And>i. k \<le> i \<Longrightarrow> i < m \<Longrightarrow>
             github (c i) = Reply (st i) (res i) \<and> ok (st i) \<and>
             (errors (res i) = None \<or> errors (res i) = Some []) \<and>
             data_repositories (res i) = Some (d i) \<and>
             hasNextPage (pageInfo (d i)) \<and> endCursor (pageInfo (d i)) = c (Suc i)"
    and "k \<le> m"
  shows "POST_loop github acc True (c k) sent =
           POST_loop github (acc @ concat (map (\<lambda>i. nodes (d i)) [k..<m])) True (c m)
             (sent @ map c [k..<m])"
  using assms
proof (induction "m - k" arbitrary: k acc sent)
  case 0
  then show ?case by simp
next
  case (Suc n)
  then have lt: "k < m" by simp
  from Suc.prems(1) [of k] lt have r: "github (c k) = Reply (st k) (res k)" and o: "ok (st k)"
    and e: "errors (res k) = None \<or> errors (res k) = Some []"
    and dt: "data_repositories (res k) = Some (d k)"
    and nx: "hasNextPage (pageInfo (d k))" "endCursor (pageInfo (d k)) = c (Suc k)"
    by simp_all
  have step: "POST_loop github acc True (c k) sent =
      POST_loop github (acc @ nodes (d k)) True (c (Suc k)) (sent @ [c k])"
    using e by (subst POST_loop.simps) (auto simp: r o dt nx)
  have n: "n = m - Suc k" using Suc.hyps(2) by simp
  have ih: "POST_loop github (acc @ nodes (d k)) True (c (Suc k)) (sent @ [c k]) =
      POST_loop github ((acc @ nodes (d k)) @ concat (map (\<lambda>i. nodes (d i)) [Suc k..<m])) True
        (c m) ((sent @ [c k]) @ map c [Suc k..<m])"
    using Suc.prems lt by (intro Suc.hyps(1) [OF n]) simp_all
  have u: "[k..<m] = k # [Suc k..<m]"
    using lt by (simp add: upt_conv_Cons)
  show ?case
    unfolding step ih u by simp
qed

lemma POST_loop_last_page:
  assumes "\<And>i. i < m \<Longrightarrow>
             github (c i) = Reply (st i) (res i) \<and> ok (st i) \<and>
             (errors (res i) = None \<or> errors (res i) = Some []) \<and>
             data_repositories (res i) = Some (d i) \<and>
             hasNextPage (pageInfo (d i)) \<and> endCursor (pageInfo (d i)) = c (Suc i)"
    and "github (c m) = Reply (st m) (res m)" and "ok (st m)"
    and "errors (res m) = None \<or> errors (res m) = Some []"
    and "data_repositories (res m) = Some (d m)"
    and "\<not> hasNextPage (pageInfo (d m))"
  shows "POST_loop github [] True (c 0) [] =
           Some (respond_repos (concat (map (\<lambda>i. nodes (d i)) [0..<Suc m])), map c [0..<Suc m])"
proof -
  have "POST_loop github [] True (c 0) [] =
      POST_loop github ([] @ concat (map (\<lambda>i. nodes (d i)) [0..<m])) True (c m)
        ([] @ map c [0..<m])"
    using assms(1) by (intro POST_loop_next_pages [where st = st and res = res]) simp_all
  also have "\<dots> = POST_loop github (concat (map (\<lambda>i. nodes (d i)) [0..<m]) @ nodes (d m)) False
      (endCursor (pageInfo (d m))) (map c [0..<m] @ [c m])"
    using assms(4) by (subst POST_loop.simps) (auto simp: assms(2,3,5,6))
  also have "\<dots> = Some (respond_repos (concat (map (\<lambda>i. nodes (d i)) [0..<m]) @ nodes (d m)),
      map c [0..<m] @ [c m])"
    by (subst POST_loop.simps) simp
  finally show ?thesis by simp
qed

lemma node_chunks_concat:
  "concat (map (\<lambda>i. take 100 (drop (100 * i) recs)) [0..<n]) = take (100 * n) recs"
proof (induction n)
  case 0
  show ?case by simp
next
  case (Suc n)
  have "take (100 * n) recs @ take 100 (drop (100 * n) recs) = take (100 * n + 100) recs"
    by (simp add: take_add)
  with Suc show ?case by (simp add: add.commute)
qed

text \<open>
  C2, as the specification states it, fails when the account has no record: the loop
  starts with \<open>hasNextPage = true\<close>, so it issues one request, while
  \<open>ceil(totalCount / 100)\<close> is 0.
\<close>

theorem one_request_for_no_records_counterexample:
  "paged_github [] None =
     Reply 200 \<lparr>data_repositories = Some \<lparr>totalCount = 0,
        pageInfo = \<lparr>hasNextPage = False, endCursor = None\<rparr>, nodes = []\<rparr>, errors = None\<rparr> \<and>
   POST (\<lambda>tok. paged_github []) ''ghp_x'' = Some (respond_repos [], [None]) \<and>
   length [None :: string option] \<noteq> (0 + 99) div 100"
  by (simp add: POST_def POST_loop.simps paged_github_def ok_def)

text \<open>
  C2, amended. For every token-path fetch over a deterministic cursor sequence, the loop
  repeats while \<open>hasNextPage\<close> is true and passes the \<open>endCursor\<close> of each page into
  the next request (the first request carries the null cursor); the repositories returned
  are the concatenation of the pages' nodes in order. When the pages are the records
  \<open>recs\<close> (\<open>totalCount = length recs\<close>) cut into pages of 100, the loop issues exactly
  \<open>max(1, ceil(totalCount / 100))\<close> requests and returns every record once, in order.
\<close>

theorem token_pagination_follows_cursors:
  "(tok \<noteq> '''' \<and> c 0 = None \<and>
    (\<forall>i\<le>m. github tok (c i) = Reply (st i) (res i) \<and> ok (st i) \<and>
            (errors (res i) = None \<or> errors (res i) = Some []) \<and>
            data_repositories (res i) = Some (d i) \<and>
            hasNextPage (pageInfo (d i)) = (i < m) \<and>
            (i < m \<longrightarrow> endCursor (pageInfo (d i)) = c (Suc i))) \<longrightarrow>
      POST github tok =
        Some (respond_repos (concat (map (\<lambda>i. nodes (d i)) [0..<Suc m])), map c [0..<Suc m])) \<and>
   (tok \<noteq> '''' \<and> c 0 = None \<and> n = max 1 ((length recs + 99) div 100) \<and>
    (\<forall>i<n. github tok (c i) = Reply (st i) (res i) \<and> ok (st i) \<and>
            (errors (res i) = None \<or> errors (res i) = Some []) \<and>
            data_repositories (res i) = Some (d i) \<and>
            totalCount (d i) = length recs \<and>
            nodes (d i) = take 100 (drop (100 * i) recs) \<and>
            hasNextPage (pageInfo (d i)) = (100 * (i + 1) < length recs) \<and>
            (100 * (i + 1) < length recs \<longrightarrow> endCursor (pageInfo (d i)) = c (Suc i))) \<longrightarrow>
      POST github tok = Some (respond_repos recs, map c [0..<n]) \<and>
      length (map c [0..<n]) = max 1 ((length recs + 99) div 100))"
proof (intro conjI impI)
  assume a: "tok \<noteq> '''' \<and> c 0 = None \<and>
    (\<forall>i\<le>m. github tok (c i) = Reply (st i) (res i) \<and> ok (st i) \<and>
            (errors (res i) = None \<or> errors (res i) = Some []) \<and>
            data_repositories (res i) = Some (d i) \<and>
            hasNextPage (pageInfo (d i)) = (i < m) \<and>
            (i < m \<longrightarrow> endCursor (pageInfo (d i)) = c (Suc i)))"
  then have "POST_loop (github tok) [] True (c 0) [] =
      Some (respond_repos (concat (map (\<lambda>i. nodes (d i)) [0..<Suc m])), map c [0..<Suc m])"
    by (intro POST_loop_last_page [where st = st and res = res]) simp_all
  with a show "POST github tok =
      Some (respond_repos (concat (map (\<lambda>i. nodes (d i)) [0..<Suc m])), map c [0..<Suc m])"
    by (simp add: POST_def)
next
  assume a: "tok \<noteq> '''' \<and> c 0 = None \<and> n = max 1 ((length recs + 99) div 100) \<and>
    (\<forall>i<n. github tok (c i) = Reply (st i) (res i) \<and> ok (st i) \<and>
            (errors (res i) = None \<or> errors (res i) = Some []) \<and>
            data_repositories (res i) = Some (d i) \<and>
            totalCount (d i) = length recs \<and>
            nodes (d i) = take 100 (drop (100 * i) recs) \<and>
            hasNextPage (pageInfo (d i)) = (100 * (i + 1) < length recs) \<and>
            (100 * (i + 1) < length recs \<longrightarrow> endCursor (pageInfo (d i)) = c (Suc i)))"
  then have n: "n = max 1 ((length recs + 99) div 100)" by simp
  define m where "m = n - 1"
  have nm: "n = Suc m" using n by (simp add: m_def max_def)
  have more: "100 * (i + 1) < length recs" if "i < m" for i
    using that n unfolding nm by (simp add: max_def split: if_splits)
  have last: "\<not> 100 * (m + 1) < length recs"
    using n unfolding nm by (simp add: max_def split: if_splits)
  have "POST_loop (github tok) [] True (c 0) [] =
      Some (respond_repos (concat (map (\<lambda>i. nodes (d i)) [0..<Suc m])), map c [0..<Suc m])"
    using a more last
    by (intro POST_loop_last_page [where st = st and res = res]) (simp_all add: nm)
  moreover have "map (\<lambda>i. nodes (d i)) [0..<Suc m] =
      map (\<lambda>i. take 100 (drop (100 * i) recs)) [0..<Suc m]"
    using a by (intro map_cong) (simp_all add: nm)
  moreover have "take (100 * Suc m) recs = recs"
    using last by simp
  ultimately have "POST_loop (github tok) [] True (c 0) [] =
      Some (respond_repos recs, map c [0..<n])"
    by (simp only: node_chunks_concat nm)
  with a show "POST github tok = Some (respond_repos recs, map c [0..<n])"
    by (simp add: POST_def)
  show "length (map c [0..<n]) = max 1 ((length recs + 99) div 100)"
    using n by simp
qed

theorem token_pagination_follows_cursors_witness:
  "POST (\<lambda>tok. paged_github (replicate 101 sample_node)) ''ghp_x'' =
     Some (respond_repos (replicate 101 sample_node), [None, Some (replicate 100 CHR ''c'')])"
proof -
  define recs where "recs = replicate 101 sample_node"
  define c where "c = (\<lambda>i::nat. if i = 0 then None else Some (replicate (100 * i) CHR ''c''))"
  define res where "res = (\<lambda>i. case paged_github recs (c i) of Reply status result \<Rightarrow> result)"
  define d where "d = (\<lambda>i. the (data_repositories (res i)))"
  have len: "length recs = 101" by (simp add: recs_def)
  have two: "max 1 ((length recs + 99) div 100) = (2::nat)" by (simp add: len)
  have pages: "\<forall>i<2. paged_github recs (c i) = Reply 200 (res i) \<and> ok 200 \<and>
            (errors (res i) = None \<or> errors (res i) = Some []) \<and>
            data_repositories (res i) = Some (d i) \<and>
            totalCount (d i) = length recs \<and>
            nodes (d i) = take 100 (drop (100 * i) recs) \<and>
            hasNextPage (pageInfo (d i)) = (100 * (i + 1) < length recs) \<and>
            (100 * (i + 1) < length recs \<longrightarrow> endCursor (pageInfo (d i)) = c (Suc i))"
    by (auto simp: less_Suc_eq numeral_2_eq_2 d_def res_def c_def paged_github_def ok_def len
        Let_def)
  have sent: "map c [0..<2] = [None, Some (replicate 100 CHR ''c'')]"
    by (simp add: c_def numeral_2_eq_2)
  from token_pagination_follows_cursors
    [of "''ghp_x''" c 1 "\<lambda>tok. paged_github recs" "\<lambda>i. 200" res d 2 recs]
    pages two
  have "POST (\<lambda>tok. paged_github recs) ''ghp_x'' = Some (respond_repos recs, map c [0..<2])"
    by (simp add: c_def)
  then show ?thesis
    unfolding sent recs_def .
qed

section \<open>A failed fetch and the persisted list\<close>

lemma failed_page_discards_accumulation:
  assumes "\<And>i. i < m \<Longrightarrow>
             github (c i) = Reply (st i) (res i) \<and> ok (st i) \<and>
             (errors (res i) = None \<or> errors (res i) = Some []) \<and>
             data_repositories (res i) = Some (d i) \<and>
             hasNextPage (pageInfo (d i)) \<and> endCursor (pageInfo (d i)) = c (Suc i)"
    and "github (c m) = Reply status result"
    and "\<not> ok status \<and> 300 \<le> status \<and> status \<le> 599 \<and> status \<noteq> 304 \<and>
           message = ''GitHub API error: '' @ show_nat status \<and> code = status \<or>
         ok status \<and> (\<exists>others. errors result = Some (message # others)) \<and> code = 400"
  shows "POST_loop github [] True (c 0) [] =
           Some (Responded code \<lparr>body_repos = [], body_error = Some message\<rparr>, map c [0..<Suc m])"
proof -
  have "POST_loop github [] True (c 0) [] =
      POST_loop github ([] @ concat (map (\<lambda>i. nodes (d i)) [0..<m])) True (c m)
        ([] @ map c [0..<m])"
    using assms(1) by (intro POST_loop_next_pages [where st = st and res = res]) simp_all
  also have "\<dots> = Some (Responded code \<lparr>body_repos = [], body_error = Some message\<rparr>,
      map c [0..<m] @ [c m])"
    using assms(3) by (subst POST_loop.simps) (auto simp: assms(2) json_response_def)
  finally show ?thesis by simp
qed

lemma failed_fetch_keeps_storage:
  assumes "token s \<noteq> '''' \<and>
             (api (token s) = Some (Rejected message) \<or>
              (\<exists>result. api (token s) = Some (Answered result) \<and>
                        result_error result = Some message \<and> message \<noteq> '''')) \<or>
           token s = '''' \<and> username s \<noteq> '''' \<and>
             (\<exists>sent. rest_loop (rest (username s)) [] 1 [] = Some (Inl message, sent))"
  shows "fetchRepos api rest s =
           Some (s\<lparr>loading := False, error := message, repos := Some []\<rparr>)"
  using assms
  by (auto simp: fetchRepos_def caught_def Let_def)

text \<open>
  A second way to the same failure: when a request of the handler is not answered, the
  handler is left by the exception, the framework's answer has no \<open>error\<close> and no
  \<open>repos\<close>, and the page persists \<open>undefined\<close> in place of the list.
\<close>

lemma handler_crash_persists_undefined:
  "POST unreachable_github ''ghp_x'' = Some (HandlerThrew, [None, Some ''c100'']) \<and>
   map_option (\<lambda>s. (localStorage s ''repomgr_github'', repos s, error s))
     (fetchRepos (api_of_POST unreachable_github) (\<lambda>user. paged_rest []) fetched_page)
     = Some (Some (StoredString ''undefined''), None, '''')"
proof -
  have post: "POST unreachable_github ''ghp_x'' = Some (HandlerThrew, [None, Some ''c100''])"
    by (simp add: POST_def POST_loop.simps unreachable_github_def ok_def)
  show ?thesis
    unfolding post
    by (simp add: fetchRepos_def api_of_POST_def post fetched_page_def initial_page_def
        persistGithub_def caught_def)
qed

text \<open>
  C4. A fetch attempt in which a page request fails after earlier pages were accumulated
  should discard the accumulation and leave the persisted list as it was. The code does
  so whenever the failure reaches the page as a rejection or as a non-empty \<open>error\<close>
  string (lemmas \<open>failed_page_discards_accumulation\<close> and \<open>failed_fetch_keeps_storage\<close>).
  It does not when the hosting API reports a structured error whose first message is the
  empty string: the endpoint answers \<open>{ repos: [], error: "" }\<close>, the page tests
  \<open>if (result.error)\<close>, takes the answer for a success, and \<open>persistGithub\<close> overwrites
  the persisted list with the empty list.
\<close>

theorem empty_error_message_clears_storage:
  "POST failing_github ''ghp_x'' =
     Some (Responded 400 \<lparr>body_repos = [], body_error = Some ''''\<rparr>, [None, Some ''c100'']) \<and>
   localStorage fetched_page ''repomgr_github''
     = Some (StoredRepos [sample_repo ''o'' ''a'' None False False]) \<and>
   map_option (\<lambda>s. (localStorage s ''repomgr_github'', repos s, error s))
     (fetchRepos (api_of_POST failing_github) (\<lambda>user. paged_rest []) fetched_page)
     = Some (Some (StoredRepos []), Some [], '''')"
proof -
  have post: "POST failing_github ''ghp_x'' =
     Some (Responded 400 \<lparr>body_repos = [], body_error = Some ''''\<rparr>, [None, Some ''c100''])"
    by (simp add: POST_def POST_loop.simps failing_github_def ok_def)
  show ?thesis
    unfolding post
    by (simp add: fetchRepos_def api_of_POST_def post fetched_page_def initial_page_def
        persistGithub_def caught_def)
qed

end
